theory Spec2Isabelle
  imports Main
begin

section \<open>The release script \<open>scripts/release.mjs\<close>: data model\<close>

text \<open>
  The script is a linear batch job over the file system, the console, the archiver
  library and the GitHub REST client. The embedding threads a \<open>world\<close> record through
  every function; what the script cannot decide itself (library calls, the network,
  the clock, the environment variable) is a field of the \<open>env\<close> record.

  Paths are the strings the script builds. Byte buffers are lists of 8-bit characters.
\<close>

type_synonym path = string
type_synonym bytes = string

text \<open>A JavaScript \<open>Error\<close>: its \<open>message\<close>, and the \<open>status\<close> property that the REST
  client's request errors carry (absent on every other error).\<close>

record error =
  message :: string
  status :: "nat option"

datatype node = File bytes | Dir

text \<open>\<open>fs.Dirent\<close>, as \<open>readdirSync(dir, {withFileTypes: true})\<close> returns it.\<close>

record dirent =
  name :: string
  isDirectory :: bool

text \<open>One element of the manifest's \<open>files\<close> array: \<open>{url, sha512, size}\<close>.\<close>

record file_info =
  url :: string
  sha512 :: string
  size_f :: nat

text \<open>The object \<open>generateInfoJson\<close> serialises.\<close>

record info =
  info_version :: string
  info_files :: "file_info list"
  info_releaseDate :: string

text \<open>The part of a release object (\<open>response.data\<close>) the script reads.\<close>

record release =
  release_id :: nat
  html_url :: string

datatype api_call =
    GetReleaseByTag string string string
      \<comment> \<open>owner, repo, tag\<close>
  | CreateRelease string string string string string bool bool
      \<comment> \<open>owner, repo, tag_name, name, body, draft, prerelease\<close>
  | UploadReleaseAsset string string nat string bytes
      \<comment> \<open>owner, repo, release_id, name, data\<close>

text \<open>
  Events of the two streams in \<open>zipFolder\<close>. The script listens to \<open>close\<close> on the
  output stream and to \<open>error\<close> on the archive; the output stream's own \<open>error\<close> and
  the archive's \<open>warning\<close> have no listener.
\<close>

datatype stream_event =
    OutputClose
  | ArchiveError error
  | OutputError error
  | ArchiveWarning error

text \<open>What one run of the archiver does: the bytes it left in the output file
  (\<open>None\<close> when the file could not be opened) and the events it emitted, in order.\<close>

record zip_run =
  written :: "bytes option"
  events :: "stream_event list"

text \<open>One constructor per console statement of the script (\<open>L\<close>: \<open>console.log\<close>,
  \<open>E\<close>: \<open>console.error\<close>), with the values it interpolates.\<close>

datatype log_msg =
    L_start string
  | L_no_folders
  | L_found nat
  | L_folder string
  | L_zipping string
  | L_zipped string string
  | L_file_info
  | L_size nat
  | L_sha512 string
  | L_release_done
  | L_output_dir path
  | L_generated
  | L_file string nat
  | L_info_json
  | E_failed string
  | L_token_unset
  | L_repo string string
  | L_found_release string
  | L_created_release string
  | L_upload_start
  | L_uploading string
  | L_uploaded string
  | L_github_done string
  | E_github_failed string
  | E_check_token

text \<open>The synchronous file-system calls of the script that can throw.\<close>

datatype fs_op = Read | Write | Mkdir | Stat

text \<open>The \<open>version\<close> field of the parsed \<open>package.json\<close>: a string, or any other
  value, of which only its rendering in a template literal matters.\<close>

datatype version_field = Str string | NotStr string

record world =
  fsys :: "path \<Rightarrow> node option"
  console :: "log_msg list"
  calls :: "api_call list"
    \<comment> \<open>every REST request sent so far\<close>
  zips :: "(path \<times> path \<times> zip_run) list"
    \<comment> \<open>every archiver run started so far: source directory, output file, what it did\<close>

record env =
  GH_TOKEN :: "string option"
    \<comment> \<open>\<open>process.env.GH_TOKEN\<close>\<close>
  JSON_parse_version :: "bytes \<Rightarrow> error + version_field"
    \<comment> \<open>\<open>JSON.parse(text).version\<close>: a thrown error, or the field\<close>
  JSON_stringify :: "info \<Rightarrow> bytes"
    \<comment> \<open>\<open>JSON.stringify(info, null, 2)\<close>\<close>
  now_iso :: string
    \<comment> \<open>\<open>new Date().toISOString()\<close>\<close>
  sha512_base64 :: "bytes \<Rightarrow> string"
    \<comment> \<open>\<open>createHash('sha512').update(buf).digest('base64')\<close>\<close>
  stat_dir_size :: nat
    \<comment> \<open>\<open>statSync(p).size\<close> when \<open>p\<close> is a directory\<close>
  readdirSync :: "path \<Rightarrow> error + dirent list"
  fs_fault :: "fs_op \<Rightarrow> (path \<Rightarrow> node option) \<Rightarrow> path \<Rightarrow> error option"
    \<comment> \<open>a failure of a synchronous file-system call that the contents of the disk do
        not decide: permissions, a read-only or full disk, an I/O error\<close>
  archiver :: "(path \<Rightarrow> node option) \<Rightarrow> path \<Rightarrow> path \<Rightarrow> zip_run"
    \<comment> \<open>the archiver library piped into a write stream: file system, source directory,
        output file\<close>
  git_remote_get_url :: "error + string"
    \<comment> \<open>\<open>execSync('git remote get-url origin', {encoding: 'utf8'})\<close>\<close>
  octokit :: "api_call list \<Rightarrow> api_call \<Rightarrow> error + release"
    \<comment> \<open>the answer of the REST API to a request, given the requests sent before\<close>

text \<open>
  How a piece of the script ends: normally with a value, by a thrown error, by
  \<open>process.exit(n)\<close>, by an error event nobody listens to (which terminates the process),
  or never, when an awaited promise is not settled.
\<close>

datatype 'a result =
    Done 'a world
  | Threw error world
  | Exit nat world
  | Uncaught error world
  | Hung world

datatype exit_status = Exited nat | Stalled

section \<open>Constants and small helpers\<close>

definition filesSrc :: path where
  "filesSrc = ''src/files''"

definition outputDist :: path where
  "outputDist = ''dist''"

text \<open>
  \<open>path.join(a, b)\<close> of Node, POSIX flavour: the non-empty arguments are joined by a
  slash and the result is normalised. Normalisation drops empty and \<open>.\<close> segments, lets
  a \<open>..\<close> segment remove the segment before it (or stay, in a relative path that has
  nothing left to remove), and keeps a leading and a trailing slash. The script calls it
  with the version of \<open>package.json\<close>, which is any string.
\<close>

fun split_slash :: "string \<Rightarrow> string list" where
  "split_slash [] = [[]]"
| "split_slash (c # cs) =
     (if c = CHR ''/'' then [] # split_slash cs
      else (case split_slash cs of
              [] \<Rightarrow> [[c]]
            | s # ss \<Rightarrow> (c # s) # ss))"

definition push_segment :: "bool \<Rightarrow> string list \<Rightarrow> string \<Rightarrow> string list" where
  "push_segment allowAboveRoot res seg =
     (if seg = [] \<or> seg = ''.'' then res
      else if seg = ''..'' then
        (if res \<noteq> [] \<and> last res \<noteq> ''..'' then butlast res
         else if allowAboveRoot then res @ [''..'']
         else res)
      else res @ [seg])"

fun join_slash :: "string list \<Rightarrow> string" where
  "join_slash [] = []"
| "join_slash [s] = s"
| "join_slash (s # t # ss) = s @ ''/'' @ join_slash (t # ss)"

definition posix_normalize :: "string \<Rightarrow> string" where
  "posix_normalize p =
     (if p = [] then ''.''
      else
        (let isAbsolute = (hd p = CHR ''/'');
             trailingSeparator = (last p = CHR ''/'');
             body = join_slash (foldl (push_segment (\<not> isAbsolute)) [] (split_slash p))
         in if body = []
            then (if isAbsolute then ''/'' else if trailingSeparator then ''./'' else ''.'')
            else (if isAbsolute then ''/'' else []) @ body
                 @ (if trailingSeparator then ''/'' else [])))"

definition posix_join :: "path \<Rightarrow> string \<Rightarrow> path" where
  "posix_join a b =
     (let joined = (if a = [] then b else if b = [] then a else a @ ''/'' @ b)
      in if joined = [] then ''.'' else posix_normalize joined)"

text \<open>
  The other calls of \<open>path.join\<close> append one segment to a directory: the name of an
  entry of the source root, that name with \<open>.zip\<close>, or \<open>info.json\<close>. There
  \<open>path.join\<close> is the directory, a slash and the segment (\<open>posix_join_segment\<close> and
  \<open>posix_join_output_segment\<close> below, for a directory in normal form and for the output
  directory of a version that is one segment); when the output directory is \<open>.\<close> or
  ends with a slash, Node spells the same location without the \<open>./\<close> or the doubled
  slash. The same function says what lies inside a directory.
\<close>

definition plain_segment :: "string \<Rightarrow> bool" where
  "plain_segment s = (s \<noteq> [] \<and> CHR ''/'' \<notin> set s \<and> s \<noteq> ''.'' \<and> s \<noteq> ''..'')"

definition path_join :: "path \<Rightarrow> string \<Rightarrow> path" where
  "path_join a b = a @ ''/'' @ b"

definition basename :: "path \<Rightarrow> string" where
  "basename p = rev (takeWhile (\<lambda>c. c \<noteq> CHR ''/'') (rev p))"

definition dirname :: "path \<Rightarrow> path" where
  "dirname p = take (length p - Suc (length (basename p))) p"

text \<open>The path itself and every leading directory of it.\<close>

definition path_prefixes :: "path \<Rightarrow> path list" where
  "path_prefixes p =
     map (\<lambda>i. take i p) (filter (\<lambda>i. 0 < i \<and> p ! i = CHR ''/'') [0..<length p]) @ [p]"

definition say :: "log_msg \<Rightarrow> world \<Rightarrow> world" where
  "say m w = w\<lparr>console := console w @ [m]\<rparr>"

definition ENOENT :: error where
  "ENOENT = \<lparr>message = ''ENOENT: no such file or directory'', status = None\<rparr>"

definition EISDIR :: error where
  "EISDIR = \<lparr>message = ''EISDIR: illegal operation on a directory'', status = None\<rparr>"

definition ENOTDIR :: error where
  "ENOTDIR = \<lparr>message = ''ENOTDIR: not a directory'', status = None\<rparr>"

definition EEXIST :: error where
  "EEXIST = \<lparr>message = ''EEXIST: file already exists'', status = None\<rparr>"

definition EACCES :: error where
  "EACCES = \<lparr>message = ''EACCES: permission denied'', status = None\<rparr>"

definition ERR_INVALID_ARG_TYPE :: error where
  "ERR_INVALID_ARG_TYPE =
     \<lparr>message = ''The path argument must be of type string'', status = None\<rparr>"

fun is_file :: "node option \<Rightarrow> bool" where
  "is_file (Some (File b)) = True"
| "is_file _ = False"

definition existsSync :: "world \<Rightarrow> path \<Rightarrow> bool" where
  "existsSync w p = (fsys w p \<noteq> None)"

definition readFileSync :: "env \<Rightarrow> world \<Rightarrow> path \<Rightarrow> error + bytes" where
  "readFileSync env w p =
     (case fs_fault env Read (fsys w) p of
        Some e \<Rightarrow> Inl e
      | None \<Rightarrow>
          (case fsys w p of
             None \<Rightarrow> Inl ENOENT
           | Some Dir \<Rightarrow> Inl EISDIR
           | Some (File b) \<Rightarrow> Inr b))"

definition writeFileSync :: "env \<Rightarrow> path \<Rightarrow> bytes \<Rightarrow> world \<Rightarrow> error + world" where
  "writeFileSync env p data w =
     (case fs_fault env Write (fsys w) p of
        Some e \<Rightarrow> Inl e
      | None \<Rightarrow>
          if fsys w p = Some Dir then Inl EISDIR
          else if CHR ''/'' \<in> set p \<and> fsys w (dirname p) \<noteq> Some Dir then Inl ENOENT
          else Inr (w\<lparr>fsys := (fsys w)(p \<mapsto> File data)\<rparr>))"

text \<open>\<open>fs.mkdirSync(p, {recursive: true})\<close>: creates \<open>p\<close> and its missing parents, unless
  a plain file is in the way or the call fails for a reason of its own.\<close>

definition mkdirSync_recursive :: "env \<Rightarrow> path \<Rightarrow> world \<Rightarrow> error + world" where
  "mkdirSync_recursive env p w =
     (case fs_fault env Mkdir (fsys w) p of
        Some e \<Rightarrow> Inl e
      | None \<Rightarrow>
          if \<exists>q \<in> set (butlast (path_prefixes p)). is_file (fsys w q) then Inl ENOTDIR
          else if is_file (fsys w p) then Inl EEXIST
          else Inr (w\<lparr>fsys := (\<lambda>q. if q \<in> set (path_prefixes p) then Some Dir
                                   else fsys w q)\<rparr>))"

section \<open>The functions of the script\<close>

subsection \<open>\<open>getVersion\<close>, \<open>calculateSHA512\<close>, \<open>getFileSize\<close>\<close>

definition getVersion :: "env \<Rightarrow> world \<Rightarrow> error + version_field" where
  "getVersion env w =
     (case readFileSync env w ''package.json'' of
        Inl e \<Rightarrow> Inl e
      | Inr txt \<Rightarrow> JSON_parse_version env txt)"

definition calculateSHA512 :: "env \<Rightarrow> world \<Rightarrow> path \<Rightarrow> error + string" where
  "calculateSHA512 env w filePath =
     (case readFileSync env w filePath of
        Inl e \<Rightarrow> Inl e
      | Inr fileBuffer \<Rightarrow> Inr (sha512_base64 env fileBuffer))"

definition getFileSize :: "env \<Rightarrow> world \<Rightarrow> path \<Rightarrow> error + nat" where
  "getFileSize env w filePath =
     (case fs_fault env Stat (fsys w) filePath of
        Some e \<Rightarrow> Inl e
      | None \<Rightarrow>
          (case fsys w filePath of
             None \<Rightarrow> Inl ENOENT
           | Some Dir \<Rightarrow> Inr (stat_dir_size env)
           | Some (File b) \<Rightarrow> Inr (length b)))"

subsection \<open>\<open>zipFolder\<close>\<close>

text \<open>
  The promise of \<open>zipFolder\<close>. Its executor registers \<open>resolve\<close> on the output stream's
  \<open>close\<close> and \<open>reject\<close> on the archive's \<open>error\<close>; the first of the two that fires settles
  the promise. An \<open>error\<close> event of the output stream finds no listener, which in Node
  is an uncaught exception. A \<open>warning\<close> of the archive finds no listener and is dropped.
\<close>

datatype settled = Resolved | Rejected error | Unhandled error | Pending

fun zipFolder_promise :: "stream_event list \<Rightarrow> settled" where
  "zipFolder_promise [] = Pending"
| "zipFolder_promise (OutputClose # es) = Resolved"
| "zipFolder_promise (ArchiveError err # es) = Rejected err"
| "zipFolder_promise (OutputError err # es) = Unhandled err"
| "zipFolder_promise (ArchiveWarning err # es) = zipFolder_promise es"

definition zipFolder :: "env \<Rightarrow> path \<Rightarrow> path \<Rightarrow> world \<Rightarrow> unit result" where
  "zipFolder env sourcePath outputPath w =
     (let run = archiver env (fsys w) sourcePath outputPath;
          w1 = w\<lparr>fsys := (case written run of
                             None \<Rightarrow> fsys w
                           | Some b \<Rightarrow> (fsys w)(outputPath \<mapsto> File b)),
                 zips := zips w @ [(sourcePath, outputPath, run)]\<rparr>
      in case zipFolder_promise (events run) of
           Resolved \<Rightarrow> Done () (say (L_zipped (basename sourcePath) (basename outputPath)) w1)
         | Rejected err \<Rightarrow> Threw err w1
         | Unhandled err \<Rightarrow> Uncaught err w1
         | Pending \<Rightarrow> Hung w1)"

subsection \<open>\<open>generateInfoJson\<close>\<close>

definition generateInfoJson :: "env \<Rightarrow> string \<Rightarrow> file_info list \<Rightarrow> bytes" where
  "generateInfoJson env version files =
     JSON_stringify env
       \<lparr>info_version = version, info_files = files, info_releaseDate = now_iso env\<rparr>"

subsection \<open>\<open>getGitHubInfo\<close>\<close>

definition is_space :: "char \<Rightarrow> bool" where
  "is_space c = (c \<in> set [CHR '' '', CHR 0x09, CHR 0x0A, CHR 0x0B, CHR 0x0C, CHR 0x0D])"

definition trim :: "string \<Rightarrow> string" where
  "trim s = rev (dropWhile is_space (rev (dropWhile is_space s)))"

text \<open>\<open>s.replace(pat, rep)\<close> with a string pattern: the first occurrence only.\<close>

fun replace_first :: "string \<Rightarrow> string \<Rightarrow> string \<Rightarrow> string" where
  "replace_first pat rep [] = (if pat = [] then rep else [])"
| "replace_first pat rep (c # cs) =
     (if take (length pat) (c # cs) = pat then rep @ drop (length pat) (c # cs)
      else c # replace_first pat rep cs)"

text \<open>
  The regular expression \<^verbatim>\<open>/github\.com[:/]([^/]+)\/([^/]+?)(?:\.git)?$/\<close>.
  After \<open>github.com\<close> and one of \<open>:\<close> and \<open>/\<close>, the rest of the string must be a
  non-empty owner without a slash, a slash, and a non-empty remainder without a slash;
  the lazy second group leaves a final \<open>.git\<close> to the optional group whenever something
  is left for itself.
\<close>

definition owner_repo :: "string \<Rightarrow> (string \<times> string) option" where
  "owner_repo r =
     (let a = takeWhile (\<lambda>c. c \<noteq> CHR ''/'') r;
          b = drop (Suc (length a)) r
      in if a \<noteq> [] \<and> length a < length r \<and> b \<noteq> [] \<and> CHR ''/'' \<notin> set b
         then Some (a, if 4 < length b \<and> drop (length b - 4) b = ''.git''
                       then take (length b - 4) b else b)
         else None)"

definition match_here :: "string \<Rightarrow> (string \<times> string) option" where
  "match_here s =
     (if take 10 s = ''github.com''
      then (case drop 10 s of
              [] \<Rightarrow> None
            | c # r \<Rightarrow> if c = CHR '':'' \<or> c = CHR ''/'' then owner_repo r else None)
      else None)"

text \<open>\<open>String.prototype.match\<close>: the leftmost position at which the expression matches.\<close>

fun github_match :: "string \<Rightarrow> (string \<times> string) option" where
  "github_match [] = None"
| "github_match (c # cs) =
     (case match_here (c # cs) of
        Some m \<Rightarrow> Some m
      | None \<Rightarrow> github_match cs)"

definition err_parse_url :: error where
  "err_parse_url = \<lparr>message = ''cannot parse the GitHub repository URL'', status = None\<rparr>"

definition getGitHubInfo :: "env \<Rightarrow> error + (string \<times> string)" where
  "getGitHubInfo env =
     (case git_remote_get_url env of
        Inl e \<Rightarrow> Inl e
      | Inr out \<Rightarrow>
          (case github_match (trim out) of
             None \<Rightarrow> Inl err_parse_url
           | Some (owner, repo) \<Rightarrow> Inr (owner, replace_first ''.git'' [] repo)))"

subsection \<open>\<open>createGitHubRelease\<close>\<close>

definition request :: "env \<Rightarrow> api_call \<Rightarrow> world \<Rightarrow> (error + release) \<times> world" where
  "request env c w = (octokit env (calls w) c, w\<lparr>calls := calls w @ [c]\<rparr>)"

text \<open>Lines 94 to 120: fetch the release of the tag, create a draft on 404.\<close>

definition find_or_create_release ::
  "env \<Rightarrow> string \<Rightarrow> string \<Rightarrow> string \<Rightarrow> world \<Rightarrow> release result" where
  "find_or_create_release env owner repo version w =
     (case request env (GetReleaseByTag owner repo (''v'' @ version)) w of
        (Inr rel, w1) \<Rightarrow> Done rel (say (L_found_release (html_url rel)) w1)
      | (Inl err, w1) \<Rightarrow>
          if status err = Some 404
          then (case request env
                       (CreateRelease owner repo (''v'' @ version) version
                          (''Release version '' @ version) True False) w1 of
                  (Inr rel, w2) \<Rightarrow> Done rel (say (L_created_release (html_url rel)) w2)
                | (Inl err2, w2) \<Rightarrow> Threw err2 w2)
          else Threw err w1)"

text \<open>Lines 124 to 140: the loop over the manifest entries.\<close>

fun upload_files ::
  "env \<Rightarrow> string \<Rightarrow> string \<Rightarrow> release \<Rightarrow> path \<Rightarrow> file_info list \<Rightarrow> world \<Rightarrow> unit result" where
  "upload_files env owner repo rel outputDir [] w = Done () w"
| "upload_files env owner repo rel outputDir (file # rest) w =
     (let filePath = path_join outputDir (url file)
      in if existsSync w filePath
         then (case readFileSync env (say (L_uploading (url file)) w) filePath of
                 Inl e \<Rightarrow> Threw e (say (L_uploading (url file)) w)
               | Inr fileBuffer \<Rightarrow>
                   (case request env
                           (UploadReleaseAsset owner repo (release_id rel) (url file) fileBuffer)
                           (say (L_uploading (url file)) w) of
                      (Inl e, w1) \<Rightarrow> Threw e w1
                    | (Inr _, w1) \<Rightarrow>
                        upload_files env owner repo rel outputDir rest
                          (say (L_uploaded (url file)) w1)))
         else upload_files env owner repo rel outputDir rest w)"

text \<open>Lines 143 to 155: the manifest itself.\<close>

definition upload_info ::
  "env \<Rightarrow> string \<Rightarrow> string \<Rightarrow> release \<Rightarrow> path \<Rightarrow> world \<Rightarrow> unit result" where
  "upload_info env owner repo rel outputDir w =
     (let infoPath = path_join outputDir ''info.json''
      in if existsSync w infoPath
         then (case readFileSync env (say (L_uploading ''info.json'') w) infoPath of
                 Inl e \<Rightarrow> Threw e (say (L_uploading ''info.json'') w)
               | Inr infoBuffer \<Rightarrow>
                   (case request env
                           (UploadReleaseAsset owner repo (release_id rel) ''info.json'' infoBuffer)
                           (say (L_uploading ''info.json'') w) of
                      (Inl e, w1) \<Rightarrow> Threw e w1
                    | (Inr _, w1) \<Rightarrow> Done () (say (L_uploaded ''info.json'') w1)))
         else Done () w)"

text \<open>Lines 122 to 157: the uploads, in the order of the script, and the closing line.\<close>

definition upload_assets ::
  "env \<Rightarrow> string \<Rightarrow> string \<Rightarrow> release \<Rightarrow> path \<Rightarrow> file_info list \<Rightarrow> world \<Rightarrow> unit result" where
  "upload_assets env owner repo rel outputDir files w =
     (case upload_files env owner repo rel outputDir files (say L_upload_start w) of
        Done _ w2 \<Rightarrow>
          (case upload_info env owner repo rel outputDir w2 of
             Done _ w3 \<Rightarrow> Done () (say (L_github_done (html_url rel)) w3)
           | r \<Rightarrow> r)
      | r \<Rightarrow> r)"

text \<open>The body of the \<open>try\<close> block, lines 86 to 157.\<close>

definition createGitHubRelease_try ::
  "env \<Rightarrow> string \<Rightarrow> file_info list \<Rightarrow> path \<Rightarrow> world \<Rightarrow> unit result" where
  "createGitHubRelease_try env version files outputDir w =
     (case getGitHubInfo env of
        Inl e \<Rightarrow> Threw e w
      | Inr (owner, repo) \<Rightarrow>
          (case find_or_create_release env owner repo version (say (L_repo owner repo) w) of
             Done rel w1 \<Rightarrow> upload_assets env owner repo rel outputDir files w1
           | Threw e w1 \<Rightarrow> Threw e w1
           | Exit n w1 \<Rightarrow> Exit n w1
           | Uncaught e w1 \<Rightarrow> Uncaught e w1
           | Hung w1 \<Rightarrow> Hung w1))"

definition createGitHubRelease ::
  "env \<Rightarrow> string \<Rightarrow> file_info list \<Rightarrow> path \<Rightarrow> world \<Rightarrow> unit result" where
  "createGitHubRelease env version files outputDir w =
     (if GH_TOKEN env = None \<or> GH_TOKEN env = Some []
      then Done () (say L_token_unset w)
      else (case createGitHubRelease_try env version files outputDir w of
              Threw error w1 \<Rightarrow>
                Done () (if status error = Some 401
                         then say E_check_token (say (E_github_failed (message error)) w1)
                         else say (E_github_failed (message error)) w1)
            | r \<Rightarrow> r))"

subsection \<open>\<open>main\<close>\<close>

text \<open>Lines 195 to 216: the loop over the folders, with the list \<open>files\<close> it appends to.\<close>

fun zip_folders ::
  "env \<Rightarrow> path \<Rightarrow> dirent list \<Rightarrow> file_info list \<Rightarrow> world \<Rightarrow> (file_info list) result" where
  "zip_folders env outputDir [] files w = Done files w"
| "zip_folders env outputDir (folder # rest) files w =
     (let sourcePath = path_join filesSrc (name folder);
          zipFileName = name folder @ ''.zip'';
          outputPath = path_join outputDir zipFileName
      in case zipFolder env sourcePath outputPath (say (L_zipping (name folder)) w) of
           Done _ w1 \<Rightarrow>
             (case calculateSHA512 env w1 outputPath of
                Inl e \<Rightarrow> Threw e w1
              | Inr sha \<Rightarrow>
                  (case getFileSize env w1 outputPath of
                     Inl e \<Rightarrow> Threw e w1
                   | Inr sz \<Rightarrow>
                       zip_folders env outputDir rest
                         (files @ [\<lparr>url = zipFileName, sha512 = sha, size_f = sz\<rparr>])
                         (say (L_sha512 sha) (say (L_size sz) (say L_file_info w1)))))
         | Threw e w1 \<Rightarrow> Threw e w1
         | Exit n w1 \<Rightarrow> Exit n w1
         | Uncaught e w1 \<Rightarrow> Uncaught e w1
         | Hung w1 \<Rightarrow> Hung w1)"

text \<open>Lines 175 to 177: create the output directory unless something is there.\<close>

definition ensure_dir :: "env \<Rightarrow> path \<Rightarrow> world \<Rightarrow> error + world" where
  "ensure_dir env outputDir w =
     (if \<not> existsSync w outputDir then mkdirSync_recursive env outputDir w else Inr w)"

text \<open>Lines 189 and 190, and lines 223 to 231: console output only.\<close>

definition log_found :: "dirent list \<Rightarrow> world \<Rightarrow> world" where
  "log_found folders w =
     w\<lparr>console := console w @ L_found (length folders)
                       # map (\<lambda>folder. L_folder (name folder)) folders\<rparr>"

definition log_summary :: "path \<Rightarrow> file_info list \<Rightarrow> world \<Rightarrow> world" where
  "log_summary outputDir files w =
     w\<lparr>console := console w
                     @ [L_release_done, L_output_dir outputDir, L_generated]
                     @ map (\<lambda>f. L_file (url f) (size_f f)) files
                     @ [L_info_json]\<rparr>"

text \<open>Lines 170 to 231: everything \<open>main\<close> does before it calls the publisher. The value
  is what the publisher is called with: version, manifest entries, output directory.\<close>

definition main_local ::
  "env \<Rightarrow> world \<Rightarrow> (string \<times> file_info list \<times> path) result" where
  "main_local env w =
     (case getVersion env w of
        Inl e \<Rightarrow> Threw e w
      | Inr (NotStr shown) \<Rightarrow> Threw ERR_INVALID_ARG_TYPE (say (L_start shown) w)
      | Inr (Str version) \<Rightarrow>
          (let outputDir = posix_join outputDist version
           in case ensure_dir env outputDir (say (L_start version) w) of
                Inl e \<Rightarrow> Threw e (say (L_start version) w)
              | Inr w1 \<Rightarrow>
                  (case readdirSync env filesSrc of
                     Inl e \<Rightarrow> Threw e w1
                   | Inr items \<Rightarrow>
                       (let folders = filter isDirectory items
                        in if length folders = 0 then Exit 1 (say L_no_folders w1)
                           else
                             (case zip_folders env outputDir folders [] (log_found folders w1) of
                                Done files w2 \<Rightarrow>
                                  (case writeFileSync env (path_join outputDir ''info.json'')
                                          (generateInfoJson env version files) w2 of
                                     Inl e \<Rightarrow> Threw e w2
                                   | Inr w3 \<Rightarrow>
                                       Done (version, files, outputDir)
                                         (log_summary outputDir files w3))
                              | Threw e w2 \<Rightarrow> Threw e w2
                              | Exit n w2 \<Rightarrow> Exit n w2
                              | Uncaught e w2 \<Rightarrow> Uncaught e w2
                              | Hung w2 \<Rightarrow> Hung w2)))))"

text \<open>The \<open>try\<close> block of \<open>main\<close>: the local part, then the publisher.\<close>

definition main_try :: "env \<Rightarrow> world \<Rightarrow> unit result" where
  "main_try env w =
     (case main_local env w of
        Done (version, files, outputDir) w1 \<Rightarrow> createGitHubRelease env version files outputDir w1
      | Threw e w1 \<Rightarrow> Threw e w1
      | Exit n w1 \<Rightarrow> Exit n w1
      | Uncaught e w1 \<Rightarrow> Uncaught e w1
      | Hung w1 \<Rightarrow> Hung w1)"

text \<open>
  The whole run, with the exit status of the process: 0 when \<open>main\<close> returns, 1 from the
  \<open>catch\<close> block's \<open>process.exit(1)\<close>, the argument of a \<open>process.exit\<close> inside the \<open>try\<close>
  block, and 1 when Node terminates on an uncaught exception.
\<close>

definition main :: "env \<Rightarrow> world \<Rightarrow> exit_status \<times> world" where
  "main env w =
     (case main_try env w of
        Done _ w1 \<Rightarrow> (Exited 0, w1)
      | Threw error w1 \<Rightarrow> (Exited 1, say (E_failed (message error)) w1)
      | Exit n w1 \<Rightarrow> (Exited n, w1)
      | Uncaught error w1 \<Rightarrow> (Exited 1, w1)
      | Hung w1 \<Rightarrow> (Stalled, w1))"

section \<open>Reading results, and a sample run\<close>

fun world_of :: "'a result \<Rightarrow> world" where
  "world_of (Done a w) = w"
| "world_of (Threw e w) = w"
| "world_of (Exit n w) = w"
| "world_of (Uncaught e w) = w"
| "world_of (Hung w) = w"

fun value_of :: "'a result \<Rightarrow> 'a option" where
  "value_of (Done a w) = Some a"
| "value_of _ = None"

fun exited :: "'a result \<Rightarrow> bool" where
  "exited (Exit n w) = True"
| "exited _ = False"

fun succeeded :: "error + 'a \<Rightarrow> bool" where
  "succeeded (Inr a) = True"
| "succeeded (Inl e) = False"

fun thrown_of :: "'a result \<Rightarrow> error option" where
  "thrown_of (Threw e w) = Some e"
| "thrown_of _ = None"

fun done_or_threw :: "'a result \<Rightarrow> bool" where
  "done_or_threw (Done a w) = True"
| "done_or_threw (Threw e w) = True"
| "done_or_threw _ = False"

fun file_bytes :: "node option \<Rightarrow> bytes" where
  "file_bytes (Some (File b)) = b"
| "file_bytes _ = []"

text \<open>A manifest entry describes the file at its url under \<open>dir\<close>: hash and size are
  those of the bytes on disk.\<close>

definition describes :: "env \<Rightarrow> world \<Rightarrow> path \<Rightarrow> file_info \<Rightarrow> bool" where
  "describes env w dir f =
     (case fsys w (path_join dir (url f)) of
        Some (File b) \<Rightarrow> sha512 f = sha512_base64 env b \<and> size_f f = length b
      | _ \<Rightarrow> False)"

text \<open>The uploads of the loop of lines 124 to 140 when nothing fails: one for every
  entry whose file exists, in order, with the bytes of the file.\<close>

definition asset_uploads ::
  "string \<Rightarrow> string \<Rightarrow> release \<Rightarrow> path \<Rightarrow> world \<Rightarrow> file_info list \<Rightarrow> api_call list" where
  "asset_uploads owner repo rel dir w files =
     map (\<lambda>f. UploadReleaseAsset owner repo (release_id rel) (url f)
                 (file_bytes (fsys w (path_join dir (url f)))))
       (filter (\<lambda>f. existsSync w (path_join dir (url f))) files)"

text \<open>Every request of a list is accepted when the requests are sent in order, after
  the requests \<open>sent\<close>.\<close>

fun uploads_accepted :: "env \<Rightarrow> api_call list \<Rightarrow> api_call list \<Rightarrow> bool" where
  "uploads_accepted env sent [] = True"
| "uploads_accepted env sent (c # cs) =
     (succeeded (octokit env sent c) \<and> uploads_accepted env (sent @ [c]) cs)"

fun asset_name :: "api_call \<Rightarrow> string option" where
  "asset_name (UploadReleaseAsset owner repo rid nm data) = Some nm"
| "asset_name _ = None"

fun is_upload_to :: "string \<Rightarrow> string \<Rightarrow> nat \<Rightarrow> api_call \<Rightarrow> bool" where
  "is_upload_to owner repo rid (UploadReleaseAsset owner' repo' rid' nm data) =
     (owner' = owner \<and> repo' = repo \<and> rid' = rid)"
| "is_upload_to owner repo rid _ = False"

fun is_error_event :: "stream_event \<Rightarrow> bool" where
  "is_error_event (ArchiveError e) = True"
| "is_error_event (OutputError e) = True"
| "is_error_event _ = False"


text \<open>Some error event, of either stream, comes before the output stream closes.\<close>

definition error_before_close :: "stream_event list \<Rightarrow> bool" where
  "error_before_close es =
     (\<exists>e \<in> set (takeWhile (\<lambda>e. e \<noteq> OutputClose) es). is_error_event e)"



text \<open>
  The example of the specification: version 1.2.0, the folders \<open>core\<close> and \<open>plugin-a\<close>
  beside a plain file, an archiver that closes its stream, and a remote that has no
  release of the tag yet.
\<close>

definition sample_release :: release where
  "sample_release = \<lparr>release_id = 7, html_url = ''https://github.com/o/r/releases/7''\<rparr>"

definition sample_env :: env where
  "sample_env =
     \<lparr>GH_TOKEN = None,
      JSON_parse_version = (\<lambda>txt. Inr (Str ''1.2.0'')),
      JSON_stringify = (\<lambda>i. info_version i @ concat (map url (info_files i))),
      now_iso = ''2025-01-01T00:00:00.000Z'',
      sha512_base64 = (\<lambda>b. ''sha512:'' @ b),
      stat_dir_size = 4096,
      readdirSync = (\<lambda>p. if p = ''src/files''
                          then Inr [\<lparr>name = ''core'', isDirectory = True\<rparr>,
                                    \<lparr>name = ''README.md'', isDirectory = False\<rparr>,
                                    \<lparr>name = ''plugin-a'', isDirectory = True\<rparr>]
                          else Inl ENOENT),
      fs_fault = (\<lambda>op files p. None),
      archiver = (\<lambda>files src out. \<lparr>written = Some (''PK:'' @ src), events = [OutputClose]\<rparr>),
      git_remote_get_url = Inr (''git@github.com:o/r.git'' @ [CHR 0x0A]),
      octokit = (\<lambda>sent c. case c of
                   GetReleaseByTag owner repo tag \<Rightarrow> Inl \<lparr>message = ''Not Found'', status = Some 404\<rparr>
                 | CreateRelease owner repo tag nm body draft pre \<Rightarrow> Inr sample_release
                 | UploadReleaseAsset owner repo rid nm data \<Rightarrow> Inr sample_release)\<rparr>"

definition sample_world :: world where
  "sample_world =
     \<lparr>fsys = [''package.json'' \<mapsto> File ''{ version: 1.2.0 }''],
      console = [], calls = [], zips = []\<rparr>"

text \<open>Variants of the sample: a source root that holds one plain file and no folder; a
  token the remote rejects; a remote on which the release exists; a remote that answers
  with a server error; a token the remote accepts; the world after the sample's local
  part, and the manifest entries it produced.\<close>

definition empty_root_env :: env where
  "empty_root_env =
     sample_env\<lparr>readdirSync := (\<lambda>p. Inr [\<lparr>name = ''README.md'', isDirectory = False\<rparr>])\<rparr>"

definition bad_token_env :: env where
  "bad_token_env =
     sample_env\<lparr>GH_TOKEN := Some ''expired'',
                octokit := (\<lambda>sent c. Inl \<lparr>message = ''Bad credentials'', status = Some 401\<rparr>)\<rparr>"



definition new_release_env :: env where
  "new_release_env = sample_env\<lparr>GH_TOKEN := Some ''token''\<rparr>"

definition packaged_world :: world where
  "packaged_world = world_of (main_local sample_env sample_world)"

definition sample_files :: "file_info list" where
  "sample_files =
     [\<lparr>url = ''core.zip'', sha512 = ''sha512:PK:src/files/core'', size_f = 17\<rparr>,
      \<lparr>url = ''plugin-a.zip'', sha512 = ''sha512:PK:src/files/plugin-a'', size_f = 21\<rparr>]"

text \<open>An archiver run in which an error event precedes the close of the output.\<close>

definition bad_run :: "path \<times> path \<times> zip_run \<Rightarrow> bool" where
  "bad_run x = error_before_close (events (snd (snd x)))"

text \<open>A further variant of the sample: an archiver that warns, fails, and closes.\<close>

definition failing_archiver_env :: env where
  "failing_archiver_env =
     sample_env\<lparr>archiver := (\<lambda>files src out.
        \<lparr>written = Some ''PK'',
         events = [ArchiveWarning \<lparr>message = ''ENOENT'', status = None\<rparr>,
                   ArchiveError \<lparr>message = ''EACCES'', status = None\<rparr>,
                   OutputClose]\<rparr>)\<rparr>"

text \<open>More variants of the sample: an output stream that fails to open; a remote that
  refuses an asset name it already has; a zip file that cannot be read; a plain file
  where the output directory should be; a version that leads out of \<open>dist\<close>.\<close>

definition failing_output_env :: env where
  "failing_output_env =
     sample_env\<lparr>archiver := (\<lambda>files src out. \<lparr>written = None, events = [OutputError EACCES]\<rparr>)\<rparr>"

definition no_duplicates_env :: env where
  "no_duplicates_env =
     sample_env\<lparr>GH_TOKEN := Some ''token'',
                octokit := (\<lambda>sent c.
                   if asset_name c \<noteq> None \<and> asset_name c \<in> set (map asset_name sent)
                   then Inl \<lparr>message = ''already_exists'', status = Some 422\<rparr>
                   else Inr sample_release)\<rparr>"

definition unreadable_env :: env where
  "unreadable_env =
     new_release_env\<lparr>fs_fault := (\<lambda>op files p.
        if op = Read \<and> p = ''dist/1.2.0/core.zip'' then Some EACCES else None)\<rparr>"

definition blocked_world :: world where
  "blocked_world =
     sample_world\<lparr>fsys := (fsys sample_world)(''dist'' \<mapsto> Dir, ''dist/1.2.0'' \<mapsto> File ''x'')\<rparr>"

definition odd_version_env :: env where
  "odd_version_env =
     empty_root_env\<lparr>JSON_parse_version := (\<lambda>txt. Inr (Str ''../package.json''))\<rparr>"

section \<open>Basic facts\<close>

lemma say_fsys [simp]: "fsys (say m w) = fsys w"
  and say_calls [simp]: "calls (say m w) = calls w"
  and say_zips [simp]: "zips (say m w) = zips w"
  and say_console [simp]: "console (say m w) = console w @ [m]"
  by (simp_all add: say_def)

lemma path_join_inject [simp]: "(path_join d a = path_join d b) = (a = b)"
  by (simp add: path_join_def)

lemma zip_name_not_info [simp]: "n @ ''.zip'' \<noteq> ''info.json''"
proof
  assume "n @ ''.zip'' = ''info.json''"
  then have "last (n @ ''.zip'') = last ''info.json''" by simp
  then show False by simp
qed

lemma path_join_longer: "length d < length (path_join d x)"
  by (simp add: path_join_def)

lemma path_prefixes_length: "q \<in> set (path_prefixes d) \<Longrightarrow> length q \<le> length d"
  by (auto simp: path_prefixes_def)

lemma path_join_notin_prefixes [simp]: "path_join d x \<notin> set (path_prefixes d)"
  using path_join_longer [of d x] path_prefixes_length [of "path_join d x" d] by auto

lemma self_in_prefixes [simp]: "d \<in> set (path_prefixes d)"
  by (simp add: path_prefixes_def)

lemma path_join_not_self [simp]: "path_join d x \<noteq> d"
  by (simp add: path_join_def)

lemma zipFolder_fsys_other:
  "p \<noteq> out \<Longrightarrow> fsys (world_of (zipFolder env src out w)) p = fsys w p"
  by (simp add: zipFolder_def Let_def split: settled.splits option.splits)

lemma zipFolder_is_file:
  "is_file (fsys w p) \<Longrightarrow> is_file (fsys (world_of (zipFolder env src out w)) p)"
  by (simp add: zipFolder_def Let_def split: settled.splits option.splits)

lemma zipFolder_calls [simp]: "calls (world_of (zipFolder env src out w)) = calls w"
  by (simp add: zipFolder_def Let_def split: settled.splits)

lemma zipFolder_zips [simp]:
  "zips (world_of (zipFolder env src out w)) = zips w @ [(src, out, archiver env (fsys w) src out)]"
  by (simp add: zipFolder_def Let_def split: settled.splits)

lemma zipFolder_Done:
  "zipFolder env src out w = Done u w' \<Longrightarrow>
     zipFolder_promise (events (archiver env (fsys w) src out)) = Resolved"
  by (simp add: zipFolder_def Let_def split: settled.splits)

lemma zip_folders_Cons_Done:
  assumes "zip_folders env dir (folder # rest) files w = Done files' w'"
  shows "\<exists>w1 b u.
     zipFolder env (path_join filesSrc (name folder)) (path_join dir (name folder @ ''.zip''))
        (say (L_zipping (name folder)) w) = Done u w1
     \<and> fsys w1 (path_join dir (name folder @ ''.zip'')) = Some (File b)
     \<and> zip_folders env dir rest
          (files @ [\<lparr>url = name folder @ ''.zip'', sha512 = sha512_base64 env b, size_f = length b\<rparr>])
          (say (L_sha512 (sha512_base64 env b)) (say (L_size (length b)) (say L_file_info w1)))
        = Done files' w'"
  using assms
  by (auto simp: Let_def calculateSHA512_def getFileSize_def readFileSync_def
           split: result.splits sum.splits option.splits node.splits)

lemma zip_folders_fsys_other:
  "p \<notin> (\<lambda>d. path_join dir (name d @ ''.zip'')) ` set folders \<Longrightarrow>
     fsys (world_of (zip_folders env dir folders files w)) p = fsys w p"
proof (induction folders arbitrary: files w)
  case Nil
  then show ?case by simp
next
  case (Cons folder rest)
  let ?out = "path_join dir (name folder @ ''.zip'')"
  let ?z = "zipFolder env (path_join filesSrc (name folder)) ?out (say (L_zipping (name folder)) w)"
  from Cons.prems have ne: "p \<noteq> ?out" and rest: "p \<notin> (\<lambda>d. path_join dir (name d @ ''.zip'')) ` set rest"
    by auto
  have z: "fsys (world_of ?z) p = fsys w p"
    using zipFolder_fsys_other [OF ne] by simp
  show ?case
    using z Cons.IH [OF rest]
    by (cases ?z) (auto simp: Let_def split: sum.splits)
qed

lemma zip_folders_is_file:
  "is_file (fsys w p) \<Longrightarrow> is_file (fsys (world_of (zip_folders env dir folders files w)) p)"
proof (induction folders arbitrary: files w)
  case Nil
  then show ?case by simp
next
  case (Cons folder rest)
  let ?out = "path_join dir (name folder @ ''.zip'')"
  let ?z = "zipFolder env (path_join filesSrc (name folder)) ?out (say (L_zipping (name folder)) w)"
  have z: "is_file (fsys (world_of ?z) p)"
    using zipFolder_is_file [of "say (L_zipping (name folder)) w" p] Cons.prems by simp
  show ?case
    using z Cons.IH
    by (cases ?z) (auto simp: Let_def split: sum.splits)
qed

lemma zip_folders_calls [simp]:
  "calls (world_of (zip_folders env dir folders files w)) = calls w"
proof (induction folders arbitrary: files w)
  case Nil
  then show ?case by simp
next
  case (Cons folder rest)
  let ?out = "path_join dir (name folder @ ''.zip'')"
  let ?z = "zipFolder env (path_join filesSrc (name folder)) ?out (say (L_zipping (name folder)) w)"
  have z: "calls (world_of ?z) = calls w" by simp
  show ?case
    using z Cons.IH
    by (cases ?z) (auto simp: Let_def split: sum.splits)
qed

lemma zip_folders_urls:
  "zip_folders env dir folders files w = Done files' w' \<Longrightarrow>
     map url files' = map url files @ map (\<lambda>d. name d @ ''.zip'') folders"
proof (induction folders arbitrary: files w)
  case Nil
  then show ?case by simp
next
  case (Cons folder rest)
  from zip_folders_Cons_Done [OF Cons.prems] obtain w1 b u where
    "zip_folders env dir rest
          (files @ [\<lparr>url = name folder @ ''.zip'', sha512 = sha512_base64 env b, size_f = length b\<rparr>])
          (say (L_sha512 (sha512_base64 env b)) (say (L_size (length b)) (say L_file_info w1)))
        = Done files' w'" by blast
  from Cons.IH [OF this] show ?case by simp
qed

lemma zip_folders_describes:
  assumes "zip_folders env dir folders files w = Done files' w'"
    and "distinct (map name folders)"
    and "\<forall>f \<in> set files. describes env w dir f"
    and "set (map url files) \<inter> set (map (\<lambda>d. name d @ ''.zip'') folders) = {}"
  shows "\<forall>f \<in> set files'. describes env w' dir f"
  using assms
proof (induction folders arbitrary: files w)
  case Nil
  then show ?case by simp
next
  case (Cons folder rest)
  let ?zn = "name folder @ ''.zip''"
  let ?out = "path_join dir ?zn"
  from zip_folders_Cons_Done [OF Cons.prems(1)] obtain w1 b u where
    z: "zipFolder env (path_join filesSrc (name folder)) ?out (say (L_zipping (name folder)) w) = Done u w1"
    and b: "fsys w1 ?out = Some (File b)"
    and r: "zip_folders env dir rest
          (files @ [\<lparr>url = ?zn, sha512 = sha512_base64 env b, size_f = length b\<rparr>])
          (say (L_sha512 (sha512_base64 env b)) (say (L_size (length b)) (say L_file_info w1)))
        = Done files' w'" by blast
  let ?w2 = "say (L_sha512 (sha512_base64 env b)) (say (L_size (length b)) (say L_file_info w1))"
  let ?e = "\<lparr>url = ?zn, sha512 = sha512_base64 env b, size_f = length b\<rparr>"
  have old: "\<forall>f \<in> set files. describes env ?w2 dir f"
  proof
    fix f assume f: "f \<in> set files"
    then have "url f \<in> url ` set files" by simp
    with Cons.prems(4) have "url f \<noteq> ?zn" by fastforce
    then have "path_join dir (url f) \<noteq> ?out" by simp
    from zipFolder_fsys_other [OF this, of env "path_join filesSrc (name folder)" "say (L_zipping (name folder)) w"] z
    have "fsys w1 (path_join dir (url f)) = fsys w (path_join dir (url f))" by simp
    with Cons.prems(3) f show "describes env ?w2 dir f" by (simp add: describes_def)
  qed
  have new: "describes env ?w2 dir ?e" using b by (simp add: describes_def)
  have d: "distinct (map name rest)" using Cons.prems(2) by simp
  have disj: "set (map url (files @ [?e])) \<inter> set (map (\<lambda>d. name d @ ''.zip'') rest) = {}"
    using Cons.prems(2,4) by auto
  from Cons.IH [OF r d _ disj] old new show ?case by simp
qed

lemma value_of_Some: "value_of r = Some a \<Longrightarrow> r = Done a (world_of r)"
  by (cases r) simp_all

lemma request_fsys [simp]: "fsys (snd (request env c w)) = fsys w"
  and request_zips [simp]: "zips (snd (request env c w)) = zips w"
  and request_console [simp]: "console (snd (request env c w)) = console w"
  and request_calls [simp]: "calls (snd (request env c w)) = calls w @ [c]"
  and request_fst [simp]: "fst (request env c w) = octokit env (calls w) c"
  by (simp_all add: request_def)

lemma existsSync_say [simp]: "existsSync (say m w) p = existsSync w p"
  by (simp add: existsSync_def)

lemma readFileSync_say [simp]: "readFileSync env (say m w) p = readFileSync env w p"
  by (simp add: readFileSync_def cong: option.case_cong)

lemma upload_files_shape:
  "done_or_threw (upload_files env owner repo rel dir files w)
   \<and> fsys (world_of (upload_files env owner repo rel dir files w)) = fsys w
   \<and> zips (world_of (upload_files env owner repo rel dir files w)) = zips w
   \<and> (\<exists>us. calls (world_of (upload_files env owner repo rel dir files w)) = calls w @ us
         \<and> (\<forall>c \<in> set us. is_upload_to owner repo (release_id rel) c))"
proof (induction files arbitrary: w)
  case Nil
  then show ?case by simp
next
  case (Cons f rest)
  let ?p = "path_join dir (url f)"
  show ?case
  proof (cases "existsSync w ?p")
    case False
    then show ?thesis using Cons.IH [of w] by simp
  next
    case True
    show ?thesis
    proof (cases "readFileSync env w ?p")
      case (Inl e)
      then show ?thesis using True by simp
    next
      case (Inr buf)
      let ?c = "UploadReleaseAsset owner repo (release_id rel) (url f) buf"
      let ?w0 = "say (L_uploading (url f)) w"
      obtain r w1 where rq: "request env ?c ?w0 = (r, w1)" by (cases "request env ?c ?w0")
      then have w1: "fsys w1 = fsys w" "zips w1 = zips w" "calls w1 = calls w @ [?c]"
        using request_fsys [of env ?c ?w0] request_zips [of env ?c ?w0] request_calls [of env ?c ?w0]
        by simp_all
      show ?thesis
      proof (cases r)
        case (Inl e)
        then show ?thesis using True Inr rq w1 by simp
      next
        case (Inr rl)
        from Cons.IH [of "say (L_uploaded (url f)) w1"] obtain us where
          us: "calls (world_of (upload_files env owner repo rel dir rest (say (L_uploaded (url f)) w1)))
                = calls w @ ?c # us" "\<forall>c \<in> set us. is_upload_to owner repo (release_id rel) c"
          using w1 by auto
        have "\<forall>c \<in> set (?c # us). is_upload_to owner repo (release_id rel) c" using us(2) by simp
        with us(1) have ex: "\<exists>us'. calls (world_of (upload_files env owner repo rel dir rest (say (L_uploaded (url f)) w1)))
                = calls w @ us' \<and> (\<forall>c \<in> set us'. is_upload_to owner repo (release_id rel) c)"
          by blast
        show ?thesis
          using True \<open>readFileSync env w ?p = Inr buf\<close> rq Inr w1 ex
            Cons.IH [of "say (L_uploaded (url f)) w1"]
          by simp
      qed
    qed
  qed
qed

lemma upload_info_shape:
  "done_or_threw (upload_info env owner repo rel dir w)
   \<and> fsys (world_of (upload_info env owner repo rel dir w)) = fsys w
   \<and> zips (world_of (upload_info env owner repo rel dir w)) = zips w
   \<and> (\<exists>us. calls (world_of (upload_info env owner repo rel dir w)) = calls w @ us
         \<and> (\<forall>c \<in> set us. is_upload_to owner repo (release_id rel) c))"
  by (auto simp: upload_info_def Let_def request_def split: sum.splits prod.splits)




lemma find_or_create_shape:
  "done_or_threw (find_or_create_release env owner repo version w)
   \<and> fsys (world_of (find_or_create_release env owner repo version w)) = fsys w
   \<and> zips (world_of (find_or_create_release env owner repo version w)) = zips w"
  by (auto simp: find_or_create_release_def request_def split: sum.splits)

lemma upload_assets_shape:
  "done_or_threw (upload_assets env owner repo rel dir files w)
   \<and> fsys (world_of (upload_assets env owner repo rel dir files w)) = fsys w
   \<and> zips (world_of (upload_assets env owner repo rel dir files w)) = zips w
   \<and> (\<exists>us. calls (world_of (upload_assets env owner repo rel dir files w)) = calls w @ us
         \<and> (\<forall>c \<in> set us. is_upload_to owner repo (release_id rel) c))"
proof -
  let ?w0 = "say L_upload_start w"
  from upload_files_shape [of env owner repo rel dir files ?w0] obtain us where
    s1: "done_or_threw (upload_files env owner repo rel dir files ?w0)"
      "fsys (world_of (upload_files env owner repo rel dir files ?w0)) = fsys w"
      "zips (world_of (upload_files env owner repo rel dir files ?w0)) = zips w"
    and us: "calls (world_of (upload_files env owner repo rel dir files ?w0)) = calls w @ us"
      "\<forall>c \<in> set us. is_upload_to owner repo (release_id rel) c"
    by auto
  show ?thesis
  proof (cases "upload_files env owner repo rel dir files ?w0")
    case (Done u w2)
    from upload_info_shape [of env owner repo rel dir w2] obtain vs where
      s2: "done_or_threw (upload_info env owner repo rel dir w2)"
        "fsys (world_of (upload_info env owner repo rel dir w2)) = fsys w2"
        "zips (world_of (upload_info env owner repo rel dir w2)) = zips w2"
      and vs: "calls (world_of (upload_info env owner repo rel dir w2)) = calls w2 @ vs"
        "\<forall>c \<in> set vs. is_upload_to owner repo (release_id rel) c"
      by auto
    have all: "\<forall>c \<in> set (us @ vs). is_upload_to owner repo (release_id rel) c"
      using us(2) vs(2) by auto
    have "calls (world_of (upload_assets env owner repo rel dir files w)) = calls w @ (us @ vs)"
      using Done us(1) vs(1) s2(1)
      by (cases "upload_info env owner repo rel dir w2") (simp_all add: upload_assets_def)
    with all have "\<exists>ws. calls (world_of (upload_assets env owner repo rel dir files w)) = calls w @ ws
         \<and> (\<forall>c \<in> set ws. is_upload_to owner repo (release_id rel) c)"
      by blast
    moreover have "done_or_threw (upload_assets env owner repo rel dir files w)
       \<and> fsys (world_of (upload_assets env owner repo rel dir files w)) = fsys w
       \<and> zips (world_of (upload_assets env owner repo rel dir files w)) = zips w"
      using Done s1 s2
      by (cases "upload_info env owner repo rel dir w2") (simp_all add: upload_assets_def)
    ultimately show ?thesis by blast
  next
    case (Threw e w2)
    then show ?thesis using s1 us by (auto simp: upload_assets_def)
  qed (use s1 in simp_all)
qed

lemma createGitHubRelease_try_shape:
  "done_or_threw (createGitHubRelease_try env version files dir w)
   \<and> fsys (world_of (createGitHubRelease_try env version files dir w)) = fsys w
   \<and> zips (world_of (createGitHubRelease_try env version files dir w)) = zips w"
proof (cases "getGitHubInfo env")
  case (Inl e)
  then show ?thesis by (simp add: createGitHubRelease_try_def)
next
  case (Inr p)
  obtain owner repo where p: "p = (owner, repo)" by (cases p)
  let ?f = "find_or_create_release env owner repo version (say (L_repo owner repo) w)"
  show ?thesis
  proof (cases ?f)
    case (Done rel w1)
    with find_or_create_shape [of env owner repo version "say (L_repo owner repo) w"]
    have a: "fsys w1 = fsys w" "zips w1 = zips w" by simp_all
    show ?thesis
      using Inr p Done a upload_assets_shape [of env owner repo rel dir files w1]
      by (simp add: createGitHubRelease_try_def)
  qed (use Inr p find_or_create_shape [of env owner repo version "say (L_repo owner repo) w"]
        in \<open>simp_all add: createGitHubRelease_try_def\<close>)
qed

lemma createGitHubRelease_shape:
  "(\<exists>w'. createGitHubRelease env version files dir w = Done () w')
   \<and> fsys (world_of (createGitHubRelease env version files dir w)) = fsys w
   \<and> zips (world_of (createGitHubRelease env version files dir w)) = zips w"
proof (cases "GH_TOKEN env = None \<or> GH_TOKEN env = Some []")
  case True
  then show ?thesis by (auto simp: createGitHubRelease_def)
next
  case False
  show ?thesis
    using False createGitHubRelease_try_shape [of env version files dir w]
    by (cases "createGitHubRelease_try env version files dir w")
       (auto simp: createGitHubRelease_def)
qed

lemma createGitHubRelease_no_token:
  "GH_TOKEN env = None \<or> GH_TOKEN env = Some [] \<Longrightarrow>
     createGitHubRelease env version files dir w = Done () (say L_token_unset w)"
  by (auto simp: createGitHubRelease_def)

lemma main_after_local:
  assumes "value_of (main_local env w) = Some (version, files, dir)"
  shows "main env w =
     (Exited 0, world_of (createGitHubRelease env version files dir (world_of (main_local env w))))"
proof -
  obtain w1 where m: "main_local env w = Done (version, files, dir) w1"
    using assms by (cases "main_local env w") simp_all
  obtain w' where c: "createGitHubRelease env version files dir w1 = Done () w'"
    using createGitHubRelease_shape by blast
  show ?thesis
    by (simp add: main_def main_try_def m c)
qed

lemma log_found_simps [simp]:
  "fsys (log_found fs w) = fsys w" "calls (log_found fs w) = calls w" "zips (log_found fs w) = zips w"
  by (simp_all add: log_found_def)

lemma log_summary_simps [simp]:
  "fsys (log_summary d fl w) = fsys w" "calls (log_summary d fl w) = calls w"
  "zips (log_summary d fl w) = zips w"
  by (simp_all add: log_summary_def)

lemma ensure_dir_calls_zips:
  "ensure_dir env d w = Inr w1 \<Longrightarrow> calls w1 = calls w \<and> zips w1 = zips w"
  by (auto simp: ensure_dir_def mkdirSync_recursive_def split: if_splits option.splits)

lemma ensure_dir_fsys:
  "ensure_dir env d w = Inr w1 \<Longrightarrow>
     fsys w1 p = (if p \<in> set (path_prefixes d) \<and> fsys w d = None then Some Dir else fsys w p)"
  by (auto simp: ensure_dir_def mkdirSync_recursive_def existsSync_def
           split: if_splits option.splits)

lemma ensure_dir_only_creates_dirs:
  assumes "ensure_dir env d w = Inr w1" and "fsys w1 p \<noteq> fsys w p"
  shows "fsys w p = None \<and> fsys w1 p = Some Dir \<and> p \<in> set (path_prefixes d)"
proof -
  from assms have mk: "mkdirSync_recursive env d w = Inr w1" and nd: "fsys w d = None"
    by (auto simp: ensure_dir_def existsSync_def split: if_splits)
  from mk have nf: "\<forall>q \<in> set (butlast (path_prefixes d)). \<not> is_file (fsys w q)"
    and f1: "fsys w1 = (\<lambda>q. if q \<in> set (path_prefixes d) then Some Dir else fsys w q)"
    by (auto simp: mkdirSync_recursive_def split: if_splits option.splits)
  from assms(2) f1 have pin: "p \<in> set (path_prefixes d)" and pd: "fsys w1 p = Some Dir"
    by (auto split: if_splits)
  have "fsys w p = None"
  proof (cases "p = d")
    case True
    then show ?thesis using nd by simp
  next
    case False
    with pin have "p \<in> set (butlast (path_prefixes d))" by (simp add: path_prefixes_def)
    with nf have "\<not> is_file (fsys w p)" by blast
    moreover have "fsys w p \<noteq> Some Dir" using assms(2) pd by simp
    ultimately show ?thesis by (cases "fsys w p" rule: is_file.cases) simp_all
  qed
  with pin pd show ?thesis by simp
qed

lemma main_local_Done:
  assumes "value_of (main_local env w) = Some (version, files, dir)"
  obtains items w1 w2 w3 where
    "getVersion env w = Inr (Str version)"
    "dir = posix_join outputDist version"
    "ensure_dir env dir (say (L_start version) w) = Inr w1"
    "readdirSync env filesSrc = Inr items"
    "filter isDirectory items \<noteq> []"
    "zip_folders env dir (filter isDirectory items) [] (log_found (filter isDirectory items) w1)
       = Done files w2"
    "writeFileSync env (path_join dir ''info.json'') (generateInfoJson env version files) w2 = Inr w3"
    "main_local env w = Done (version, files, dir) (log_summary dir files w3)"
  using assms
  by (auto simp: main_local_def Let_def
           split: sum.splits version_field.splits if_splits result.splits)

lemma writeFileSync_fsys:
  "writeFileSync env p data w = Inr w' \<Longrightarrow> fsys w' = (fsys w)(p \<mapsto> File data)"
  by (auto simp: writeFileSync_def split: if_splits option.splits)

lemma writeFileSync_calls_zips:
  "writeFileSync env p data w = Inr w' \<Longrightarrow> calls w' = calls w \<and> zips w' = zips w"
  by (auto simp: writeFileSync_def split: if_splits option.splits)

lemma describes_cong:
  "fsys w' (path_join dir (url f)) = fsys w (path_join dir (url f)) \<Longrightarrow>
     describes env w' dir f = describes env w dir f"
  by (simp add: describes_def)

lemma describes_iff:
  "describes env w dir f =
     (\<exists>b. fsys w (path_join dir (url f)) = Some (File b)
          \<and> sha512 f = sha512_base64 env b \<and> size_f f = length b)"
  by (auto simp: describes_def split: option.splits node.splits)

lemma zip_folders_files_exist:
  assumes "zip_folders env dir folders files w = Done files' w'"
    and "\<forall>f \<in> set files. is_file (fsys w (path_join dir (url f)))"
  shows "\<forall>f \<in> set files'. is_file (fsys w' (path_join dir (url f)))"
  using assms
proof (induction folders arbitrary: files w)
  case Nil
  then show ?case by simp
next
  case (Cons folder rest)
  let ?zn = "name folder @ ''.zip''"
  let ?out = "path_join dir ?zn"
  from zip_folders_Cons_Done [OF Cons.prems(1)] obtain w1 b u where
    z: "zipFolder env (path_join filesSrc (name folder)) ?out (say (L_zipping (name folder)) w) = Done u w1"
    and b: "fsys w1 ?out = Some (File b)"
    and r: "zip_folders env dir rest
          (files @ [\<lparr>url = ?zn, sha512 = sha512_base64 env b, size_f = length b\<rparr>])
          (say (L_sha512 (sha512_base64 env b)) (say (L_size (length b)) (say L_file_info w1)))
        = Done files' w'" by blast
  have "\<forall>f \<in> set files. is_file (fsys w1 (path_join dir (url f)))"
  proof
    fix f assume "f \<in> set files"
    with Cons.prems(2) have "is_file (fsys (say (L_zipping (name folder)) w) (path_join dir (url f)))"
      by simp
    from zipFolder_is_file [OF this, of env "path_join filesSrc (name folder)" ?out] z
    show "is_file (fsys w1 (path_join dir (url f)))" by simp
  qed
  with b have "\<forall>f \<in> set (files @ [\<lparr>url = ?zn, sha512 = sha512_base64 env b, size_f = length b\<rparr>]).
      is_file (fsys (say (L_sha512 (sha512_base64 env b)) (say (L_size (length b)) (say L_file_info w1)))
                 (path_join dir (url f)))"
    by simp
  from Cons.IH [OF r this] show ?case .
qed

lemma main_local_calls [simp]: "calls (world_of (main_local env w)) = calls w"
proof -
  have e: "\<And>d w0 w1. ensure_dir env d w0 = Inr w1 \<Longrightarrow> calls w1 = calls w0"
    using ensure_dir_calls_zips by blast
  have z: "\<And>dir fl w0 r. calls (world_of (zip_folders env dir fl [] w0)) = calls w0"
    by simp
  have wr: "\<And>p d w0 w1. writeFileSync env p d w0 = Inr w1 \<Longrightarrow> calls w1 = calls w0"
    using writeFileSync_calls_zips by blast
  show ?thesis
    unfolding main_local_def Let_def
    apply (simp split: sum.splits version_field.splits result.splits)
    apply (intro conjI allI impI)
    apply (auto dest!: e wr)
    apply (metis z log_found_simps(2) world_of.simps)+
    done
qed

lemma main_local_no_folders:
  assumes "readdirSync env filesSrc = Inr items" and "filter isDirectory items = []"
  shows "main_local env w =
     (case getVersion env w of
        Inl e \<Rightarrow> Threw e w
      | Inr (NotStr shown) \<Rightarrow> Threw ERR_INVALID_ARG_TYPE (say (L_start shown) w)
      | Inr (Str version) \<Rightarrow>
          (case ensure_dir env (posix_join outputDist version) (say (L_start version) w) of
             Inl e \<Rightarrow> Threw e (say (L_start version) w)
           | Inr w1 \<Rightarrow> Exit 1 (say L_no_folders w1)))"
  using assms by (simp add: main_local_def Let_def split: sum.splits version_field.splits)

lemma main_no_folders_exit:
  assumes "readdirSync env filesSrc = Inr items" and "filter isDirectory items = []"
  shows "fst (main env w) = Exited 1"
  by (simp add: main_def main_try_def main_local_no_folders [OF assms]
           split: sum.splits version_field.splits)

lemma main_no_folders_world:
  assumes "readdirSync env filesSrc = Inr items" and "filter isDirectory items = []"
  shows "zips (snd (main env w)) = zips w \<and> calls (snd (main env w)) = calls w
       \<and> (\<forall>p. fsys (snd (main env w)) p \<noteq> fsys w p \<longrightarrow>
              fsys w p = None \<and> fsys (snd (main env w)) p = Some Dir
              \<and> (\<exists>version. getVersion env w = Inr (Str version)
                     \<and> p \<in> set (path_prefixes (posix_join outputDist version))))"
proof (cases "getVersion env w")
  case (Inl e)
  then show ?thesis
    by (simp add: main_def main_try_def main_local_no_folders [OF assms])
next
  case (Inr v)
  show ?thesis
  proof (cases v)
    case (NotStr shown)
    then show ?thesis using Inr
      by (simp add: main_def main_try_def main_local_no_folders [OF assms])
  next
    case (Str version)
    let ?d = "posix_join outputDist version"
    let ?w0 = "say (L_start version) w"
    show ?thesis
    proof (cases "ensure_dir env ?d ?w0")
      case (Inl e)
      then show ?thesis using Inr Str
        by (simp add: main_def main_try_def main_local_no_folders [OF assms])
    next
      case (Inr w1)
      have m: "snd (main env w) = say L_no_folders w1"
        using \<open>getVersion env w = Inr v\<close> Str Inr
        by (simp add: main_def main_try_def main_local_no_folders [OF assms])
      have cz: "calls w1 = calls w \<and> zips w1 = zips w"
        using ensure_dir_calls_zips [OF Inr] by simp
      have ch: "\<And>p. fsys w1 p \<noteq> fsys w p \<Longrightarrow>
                 fsys w p = None \<and> fsys w1 p = Some Dir \<and> p \<in> set (path_prefixes ?d)"
        using ensure_dir_only_creates_dirs [OF Inr] by simp
      show ?thesis
        using cz ch \<open>getVersion env w = Inr v\<close> Str by (simp add: m)
    qed
  qed
qed

lemma not_file_cases: "\<not> is_file x \<Longrightarrow> x = None \<or> x = Some Dir"
  by (cases x rule: is_file.cases) simp_all

lemma promise_error_iff:
  "error_before_close es
     \<longleftrightarrow> (\<exists>err. zipFolder_promise es = Rejected err \<or> zipFolder_promise es = Unhandled err)"
proof (induction es)
  case Nil
  then show ?case by (simp add: error_before_close_def)
next
  case (Cons e es)
  then show ?case by (cases e) (simp_all add: error_before_close_def)
qed

lemma promise_resolved_iff:
  "zipFolder_promise es = Resolved \<longleftrightarrow> OutputClose \<in> set es \<and> \<not> error_before_close es"
proof (induction es)
  case Nil
  then show ?case by (simp add: error_before_close_def)
next
  case (Cons e es)
  then show ?case by (cases e) (auto simp: error_before_close_def)
qed

lemma promise_first_error:
  "error_before_close es \<Longrightarrow>
     (case find is_error_event es of
        Some (ArchiveError err) \<Rightarrow> zipFolder_promise es = Rejected err
      | Some (OutputError err) \<Rightarrow> zipFolder_promise es = Unhandled err
      | _ \<Rightarrow> False)"
proof (induction es)
  case Nil
  then show ?case by (simp add: error_before_close_def)
next
  case (Cons e es)
  show ?case
  proof (cases e)
    case (ArchiveWarning x)
    with Cons.prems have "error_before_close es" by (simp add: error_before_close_def)
    from Cons.IH [OF this] show ?thesis using ArchiveWarning
      by (auto split: option.splits stream_event.splits)
  qed (use Cons.prems in \<open>simp_all add: error_before_close_def\<close>)
qed

lemma zipFolder_cases:
  "(case zipFolder_promise (events (archiver env (fsys w) src out)) of
      Resolved \<Rightarrow> \<exists>w1. zipFolder env src out w = Done () w1
    | Rejected err \<Rightarrow> \<exists>w1. zipFolder env src out w = Threw err w1
    | Unhandled err \<Rightarrow> \<exists>w1. zipFolder env src out w = Uncaught err w1
    | Pending \<Rightarrow> \<exists>w1. zipFolder env src out w = Hung w1)"
  by (simp add: zipFolder_def Let_def split: settled.splits)

lemma zip_folders_error_aborts:
  assumes "\<exists>x \<in> set (zips (world_of (zip_folders env dir folders files w))). bad_run x"
    and "\<forall>x \<in> set (zips w). \<not> bad_run x"
  shows "\<exists>e w'. zip_folders env dir folders files w = Threw e w'
              \<or> zip_folders env dir folders files w = Uncaught e w'"
  using assms
proof (induction folders arbitrary: files w)
  case Nil
  then show ?case by simp
next
  case (Cons folder rest)
  let ?src = "path_join filesSrc (name folder)"
  let ?out = "path_join dir (name folder @ ''.zip'')"
  let ?w0 = "say (L_zipping (name folder)) w"
  let ?es = "events (archiver env (fsys w) ?src ?out)"
  let ?z = "zipFolder env ?src ?out ?w0"
  have zz: "zips (world_of ?z) = zips w @ [(?src, ?out, archiver env (fsys w) ?src ?out)]"
    by simp
  note zc = zipFolder_cases [where env = env and w = ?w0 and src = ?src and out = ?out, simplified]
  show ?case
  proof (cases "zipFolder_promise ?es")
    case Resolved
    then have nb: "\<not> error_before_close ?es" by (simp add: promise_resolved_iff)
    from Resolved zc obtain w1 where zd: "?z = Done () w1" by auto
    have clean: "\<forall>x \<in> set (zips w1). \<not> bad_run x"
      using Cons.prems(2) nb zz by (simp add: bad_run_def zd)
    show ?thesis
    proof (cases "calculateSHA512 env w1 ?out")
      case (Inl e)
      then show ?thesis using zd by (simp add: Let_def)
    next
      case (Inr sha)
      show ?thesis
      proof (cases "getFileSize env w1 ?out")
        case (Inl e)
        then show ?thesis using zd Inr by (simp add: Let_def)
      next
        case (Inr sz)
        let ?fl = "files @ [\<lparr>url = name folder @ ''.zip'', sha512 = sha, size_f = sz\<rparr>]"
        let ?w2 = "say (L_sha512 sha) (say (L_size sz) (say L_file_info w1))"
        have step: "zip_folders env dir (folder # rest) files w = zip_folders env dir rest ?fl ?w2"
          using \<open>calculateSHA512 env w1 ?out = Inr sha\<close> Inr zd
          by (simp add: Let_def)
        have c2: "\<forall>x \<in> set (zips ?w2). \<not> bad_run x" using clean by simp
        from Cons.prems(1) have "\<exists>x \<in> set (zips (world_of (zip_folders env dir rest ?fl ?w2))). bad_run x"
          unfolding step .
        from Cons.IH [OF this c2] show ?thesis unfolding step .
      qed
    qed
  next
    case (Rejected err)
    with zc obtain w1 where "?z = Threw err w1" by auto
    then show ?thesis by (simp add: Let_def)
  next
    case (Unhandled err)
    with zc obtain w1 where "?z = Uncaught err w1" by auto
    then show ?thesis by (simp add: Let_def)
  next
    case Pending
    with zc obtain w1 where zh: "?z = Hung w1" by auto
    then have h: "zip_folders env dir (folder # rest) files w = Hung w1"
      by (simp add: Let_def)
    from Pending have "\<not> error_before_close ?es" by (simp add: promise_error_iff)
    with Cons.prems zz show ?thesis unfolding h by (simp add: bad_run_def zh)
  qed
qed

lemma main_zips: "zips (snd (main env w)) = zips (world_of (main_local env w))"
proof (cases "main_local env w")
  case (Done x w1)
  obtain version files dir where x: "x = (version, files, dir)" by (cases x)
  from createGitHubRelease_shape [of env version files dir w1] obtain w' where
    "createGitHubRelease env version files dir w1 = Done () w'" "zips w' = zips w1" by auto
  then show ?thesis by (simp add: main_def main_try_def Done x)
qed (simp_all add: main_def main_try_def)

lemma main_fsys: "fsys (snd (main env w)) = fsys (world_of (main_local env w))"
proof (cases "main_local env w")
  case (Done x w1)
  obtain version files dir where x: "x = (version, files, dir)" by (cases x)
  from createGitHubRelease_shape [of env version files dir w1] obtain w' where
    "createGitHubRelease env version files dir w1 = Done () w'" "fsys w' = fsys w1" by auto
  then show ?thesis by (simp add: main_def main_try_def Done x)
qed (simp_all add: main_def main_try_def)

lemma main_local_zip:
  assumes "getVersion env w = Inr (Str version)"
    and "ensure_dir env (posix_join outputDist version) (say (L_start version) w) = Inr w1"
    and "readdirSync env filesSrc = Inr items"
    and "filter isDirectory items \<noteq> []"
  shows "main_local env w =
     (case zip_folders env (posix_join outputDist version) (filter isDirectory items) []
             (log_found (filter isDirectory items) w1) of
        Done files w2 \<Rightarrow>
          (case writeFileSync env (path_join (posix_join outputDist version) ''info.json'')
                  (generateInfoJson env version files) w2 of
             Inl e \<Rightarrow> Threw e w2
           | Inr w3 \<Rightarrow> Done (version, files, posix_join outputDist version)
                         (log_summary (posix_join outputDist version) files w3))
      | Threw e w2 \<Rightarrow> Threw e w2
      | Exit n w2 \<Rightarrow> Exit n w2
      | Uncaught e w2 \<Rightarrow> Uncaught e w2
      | Hung w2 \<Rightarrow> Hung w2)"
  using assms by (simp add: main_local_def Let_def)

lemma main_local_zips_cases:
  "zips (world_of (main_local env w)) = zips w
   \<or> (\<exists>version w1 items.
         getVersion env w = Inr (Str version)
       \<and> ensure_dir env (posix_join outputDist version) (say (L_start version) w) = Inr w1
       \<and> readdirSync env filesSrc = Inr items
       \<and> filter isDirectory items \<noteq> []
       \<and> zips (world_of (main_local env w))
           = zips (world_of (zip_folders env (posix_join outputDist version)
                               (filter isDirectory items) []
                               (log_found (filter isDirectory items) w1))))"
proof (cases "getVersion env w")
  case (Inl e)
  then show ?thesis by (simp add: main_local_def)
next
  case (Inr v)
  show ?thesis
  proof (cases v)
    case (NotStr shown)
    then show ?thesis using Inr by (simp add: main_local_def)
  next
    case (Str version)
    let ?d = "posix_join outputDist version"
    show ?thesis
    proof (cases "ensure_dir env ?d (say (L_start version) w)")
      case (Inl e)
      then show ?thesis using Inr Str by (simp add: main_local_def)
    next
      case e: (Inr w1)
      have z1: "zips w1 = zips w" using ensure_dir_calls_zips [OF e] by simp
      show ?thesis
      proof (cases "readdirSync env filesSrc")
        case (Inl err)
        then show ?thesis using Inr Str e z1 by (simp add: main_local_def)
      next
        case r: (Inr items)
        show ?thesis
        proof (cases "filter isDirectory items = []")
          case True
          then show ?thesis using Inr Str e z1 r by (simp add: main_local_def)
        next
          case False
          let ?Z = "zip_folders env ?d (filter isDirectory items) []
                      (log_found (filter isDirectory items) w1)"
          note m = main_local_zip [OF _ e r False]
          have "zips (world_of (main_local env w)) = zips (world_of ?Z)"
          proof (cases ?Z)
            case (Done files w2)
            show ?thesis
            proof (cases "writeFileSync env (path_join ?d ''info.json'') (generateInfoJson env version files) w2")
              case (Inl err)
              then show ?thesis using Inr Str Done m by simp
            next
              case w: (Inr w3)
              have "zips w3 = zips w2" using writeFileSync_calls_zips [OF w] by simp
              then show ?thesis using Inr Str Done m w by simp
            qed
          qed (use Inr Str m in simp_all)
          then show ?thesis using Inr Str e r False by blast
        qed
      qed
    qed
  qed
qed

lemma main_error_aborts:
  assumes clean: "\<forall>x \<in> set (zips w). \<not> bad_run x"
    and bad: "\<exists>x \<in> set (zips (snd (main env w))). bad_run x"
  shows "fst (main env w) = Exited 1 \<and> calls (snd (main env w)) = calls w
       \<and> (\<forall>version. getVersion env w = Inr (Str version) \<longrightarrow>
             fsys (snd (main env w)) (path_join (posix_join outputDist version) ''info.json'')
               = fsys w (path_join (posix_join outputDist version) ''info.json''))"
proof -
  from bad have b: "\<exists>x \<in> set (zips (world_of (main_local env w))). bad_run x"
    by (simp add: main_zips)
  with clean have "zips (world_of (main_local env w)) \<noteq> zips w" by auto
  with main_local_zips_cases [of env w] obtain version w1 items where
    v: "getVersion env w = Inr (Str version)"
    and e: "ensure_dir env (posix_join outputDist version) (say (L_start version) w) = Inr w1"
    and r: "readdirSync env filesSrc = Inr items"
    and ne: "filter isDirectory items \<noteq> []"
    and z: "zips (world_of (main_local env w))
           = zips (world_of (zip_folders env (posix_join outputDist version)
                               (filter isDirectory items) []
                               (log_found (filter isDirectory items) w1)))"
    by blast
  let ?d = "posix_join outputDist version"
  let ?Z = "zip_folders env ?d (filter isDirectory items) [] (log_found (filter isDirectory items) w1)"
  have c1: "\<forall>x \<in> set (zips (log_found (filter isDirectory items) w1)). \<not> bad_run x"
    using clean ensure_dir_calls_zips [OF e] by simp
  from b z have "\<exists>x \<in> set (zips (world_of ?Z)). bad_run x" by simp
  from zip_folders_error_aborts [OF this c1] obtain err w' where
    Z: "?Z = Threw err w' \<or> ?Z = Uncaught err w'" by blast
  have wz: "world_of ?Z = w'" using Z by auto
  have "calls (world_of ?Z) = calls (log_found (filter isDirectory items) w1)"
    by (rule zip_folders_calls)
  then have calls': "calls w' = calls w"
    unfolding wz using ensure_dir_calls_zips [OF e] by simp
  have "path_join ?d ''info.json''
          \<notin> (\<lambda>d. path_join ?d (name d @ ''.zip'')) ` set (filter isDirectory items)"
    by auto
  from zip_folders_fsys_other [OF this, of env "[]" "log_found (filter isDirectory items) w1"]
  have "fsys (world_of ?Z) (path_join ?d ''info.json'') = fsys w1 (path_join ?d ''info.json'')"
    by simp
  also have "\<dots> = fsys w (path_join ?d ''info.json'')"
    using ensure_dir_fsys [OF e] by simp
  finally have fs': "fsys w' (path_join ?d ''info.json'') = fsys w (path_join ?d ''info.json'')"
    unfolding wz .
  note m = main_local_zip [OF v e r ne]
  from Z have "main env w = (Exited 1, say (E_failed (message err)) w') \<or> main env w = (Exited 1, w')"
    by (auto simp: main_def main_try_def m)
  then show ?thesis using calls' fs' v by auto
qed

lemma zipFolder_readdir [simp]: "zipFolder (env\<lparr>readdirSync := f\<rparr>) = zipFolder env"
  by (intro ext) (simp add: zipFolder_def)

lemma readFileSync_readdir [simp]: "readFileSync (env\<lparr>readdirSync := f\<rparr>) = readFileSync env"
  by (intro ext) (simp add: readFileSync_def)

lemma writeFileSync_readdir [simp]: "writeFileSync (env\<lparr>readdirSync := f\<rparr>) = writeFileSync env"
  by (intro ext) (simp add: writeFileSync_def)

lemma ensure_dir_readdir [simp]: "ensure_dir (env\<lparr>readdirSync := f\<rparr>) = ensure_dir env"
  by (intro ext) (simp add: ensure_dir_def mkdirSync_recursive_def)

lemma calculateSHA512_readdir [simp]: "calculateSHA512 (env\<lparr>readdirSync := f\<rparr>) = calculateSHA512 env"
  by (intro ext) (simp add: calculateSHA512_def split: sum.splits)

lemma getFileSize_readdir [simp]: "getFileSize (env\<lparr>readdirSync := f\<rparr>) = getFileSize env"
  by (intro ext) (simp add: getFileSize_def split: option.splits node.splits)

lemma zip_folders_readdir [simp]:
  "zip_folders (env\<lparr>readdirSync := f\<rparr>) dir folders files w = zip_folders env dir folders files w"
  by (induction folders arbitrary: files w)
     (simp_all add: Let_def split: result.splits sum.splits)

lemma request_readdir [simp]: "request (env\<lparr>readdirSync := f\<rparr>) = request env"
  by (intro ext) (simp add: request_def)

lemma upload_files_readdir [simp]:
  "upload_files (env\<lparr>readdirSync := f\<rparr>) owner repo rel dir files w
     = upload_files env owner repo rel dir files w"
  by (induction files arbitrary: w)
     (simp_all add: Let_def split: sum.splits prod.splits)

lemma getGitHubInfo_readdir [simp]: "getGitHubInfo (env\<lparr>readdirSync := f\<rparr>) = getGitHubInfo env"
  by (simp add: getGitHubInfo_def)

lemma find_or_create_readdir [simp]:
  "find_or_create_release (env\<lparr>readdirSync := f\<rparr>) = find_or_create_release env"
  by (intro ext)
     (simp add: find_or_create_release_def cong: sum.case_cong prod.case_cong if_cong)

lemma upload_info_readdir [simp]: "upload_info (env\<lparr>readdirSync := f\<rparr>) = upload_info env"
  by (intro ext)
     (simp add: upload_info_def Let_def cong: sum.case_cong prod.case_cong if_cong)

lemma upload_assets_readdir [simp]: "upload_assets (env\<lparr>readdirSync := f\<rparr>) = upload_assets env"
  by (intro ext) (simp add: upload_assets_def cong: result.case_cong)

lemma createGitHubRelease_try_readdir [simp]:
  "createGitHubRelease_try (env\<lparr>readdirSync := f\<rparr>) = createGitHubRelease_try env"
  by (intro ext)
     (simp add: createGitHubRelease_try_def cong: sum.case_cong prod.case_cong result.case_cong)

lemma createGitHubRelease_readdir [simp]:
  "createGitHubRelease (env\<lparr>readdirSync := f\<rparr>) = createGitHubRelease env"
  by (intro ext) (simp add: createGitHubRelease_def)

lemma main_local_filtered:
  "main_local (env\<lparr>readdirSync := (\<lambda>p. case readdirSync env p of
                                         Inl e \<Rightarrow> Inl e
                                       | Inr items \<Rightarrow> Inr (filter isDirectory items))\<rparr>) w
     = main_local env w"
  by (simp add: main_local_def getVersion_def generateInfoJson_def Let_def
        split: sum.splits version_field.splits result.splits)

lemma zip_folders_sources:
  "\<forall>x \<in> set (zips (world_of (zip_folders env dir folders files w))).
      x \<in> set (zips w) \<or> (\<exists>d \<in> set folders. fst x = path_join filesSrc (name d))"
proof (induction folders arbitrary: files w)
  case Nil
  then show ?case by simp
next
  case (Cons folder rest)
  let ?src = "path_join filesSrc (name folder)"
  let ?out = "path_join dir (name folder @ ''.zip'')"
  let ?z = "zipFolder env ?src ?out (say (L_zipping (name folder)) w)"
  have zz: "zips (world_of ?z) = zips w @ [(?src, ?out, archiver env (fsys w) ?src ?out)]"
    by simp
  show ?case
  proof (cases ?z)
    case (Done u w1)
    with zz have z1: "zips w1 = zips w @ [(?src, ?out, archiver env (fsys w) ?src ?out)]" by simp
    show ?thesis
    proof (cases "calculateSHA512 env w1 ?out")
      case (Inl e)
      then show ?thesis using Done z1 by (auto simp: Let_def)
    next
      case (Inr sha)
      show ?thesis
      proof (cases "getFileSize env w1 ?out")
        case (Inl e)
        then show ?thesis using Done Inr z1 by (auto simp: Let_def)
      next
        case (Inr sz)
        let ?fl = "files @ [\<lparr>url = name folder @ ''.zip'', sha512 = sha, size_f = sz\<rparr>]"
        let ?w2 = "say (L_sha512 sha) (say (L_size sz) (say L_file_info w1))"
        have step: "zip_folders env dir (folder # rest) files w = zip_folders env dir rest ?fl ?w2"
          using \<open>calculateSHA512 env w1 ?out = Inr sha\<close> Inr Done by (simp add: Let_def)
        show ?thesis
          unfolding step using Cons.IH [of ?fl ?w2] z1 by auto
      qed
    qed
  qed (use zz in \<open>auto simp: Let_def\<close>)
qed

lemma split_slash_not_Nil [simp]: "split_slash p \<noteq> []"
  by (induction p) (auto split: list.splits)

lemma split_slash_plain: "CHR ''/'' \<notin> set s \<Longrightarrow> split_slash s = [s]"
  by (induction s) auto

lemma split_slash_append:
  "CHR ''/'' \<notin> set s \<Longrightarrow> split_slash (a @ CHR ''/'' # s) = split_slash a @ [s]"
proof (induction a)
  case Nil
  then show ?case by (simp add: split_slash_plain)
next
  case (Cons c a)
  then show ?case by (cases "split_slash a") auto
qed

lemma join_slash_snoc: "st \<noteq> [] \<Longrightarrow> join_slash (st @ [s]) = join_slash st @ CHR ''/'' # s"
  by (induction st rule: join_slash.induct) auto

lemma posix_join_segment:
  assumes d: "posix_normalize d = d" "d \<noteq> ''.''" "d \<noteq> []" "last d \<noteq> CHR ''/''"
    and s: "plain_segment s"
  shows "posix_join d s = path_join d s"
proof -
  let ?abs = "hd d = CHR ''/''"
  let ?st = "foldl (push_segment (\<not> ?abs)) [] (split_slash d)"
  from s have s': "s \<noteq> []" "CHR ''/'' \<notin> set s" "s \<noteq> ''.''" "s \<noteq> ''..''"
    by (simp_all add: plain_segment_def)
  have body: "join_slash ?st \<noteq> []"
  proof
    assume "join_slash ?st = []"
    with d(3,4) have "posix_normalize d = (if ?abs then ''/'' else ''.'')"
      by (simp add: posix_normalize_def Let_def)
    with d show False by (auto split: if_splits)
  qed
  then have st: "?st \<noteq> []" by auto
  have dd: "d = (if ?abs then ''/'' else []) @ join_slash ?st"
    using d(1,3,4) body by (simp add: posix_normalize_def Let_def split: if_splits)
  let ?j = "d @ CHR ''/'' # s"
  have hj: "hd ?j = hd d" using d(3) by simp
  have "last s \<in> set s" using s'(1) by simp
  with s'(2) have "last s \<noteq> CHR ''/''" by metis
  then have lj: "last ?j \<noteq> CHR ''/''" using s'(1) by simp
  have sp: "split_slash ?j = split_slash d @ [s]" using s'(2) by (rule split_slash_append)
  have f: "foldl (push_segment (\<not> ?abs)) [] (split_slash ?j) = ?st @ [s]"
    using s' by (simp add: sp push_segment_def)
  have "posix_normalize ?j = (if ?abs then ''/'' else []) @ join_slash (?st @ [s])"
    using lj st by (simp add: posix_normalize_def Let_def f hj join_slash_snoc)
  also have "\<dots> = ((if ?abs then ''/'' else []) @ join_slash ?st) @ CHR ''/'' # s"
    using st by (simp add: join_slash_snoc)
  also have "\<dots> = ?j" using dd by simp
  finally show ?thesis
    using d(3) s'(1) by (simp add: posix_join_def path_join_def)
qed

lemma posix_join_version:
  "plain_segment version \<Longrightarrow> posix_join outputDist version = path_join outputDist version"
proof -
  have "posix_normalize outputDist = outputDist" by code_simp
  moreover have "outputDist \<noteq> ''.''" "outputDist \<noteq> []" "last outputDist \<noteq> CHR ''/''"
    by (simp_all add: outputDist_def)
  ultimately show "plain_segment version \<Longrightarrow> ?thesis" by (rule posix_join_segment)
qed

lemma posix_join_output_segment:
  assumes "plain_segment version" and "plain_segment s"
  shows "posix_join (posix_join outputDist version) s = path_join (posix_join outputDist version) s"
proof -
  let ?d = "path_join outputDist version"
  from assms(1) have v: "version \<noteq> []" "CHR ''/'' \<notin> set version"
    by (simp_all add: plain_segment_def)
  have d: "posix_join outputDist version = ?d" using assms(1) by (rule posix_join_version)
  then have n: "posix_normalize ?d = ?d"
    using v(1) by (simp add: posix_join_def path_join_def outputDist_def)
  have "last version \<in> set version" using v(1) by simp
  with v(2) have "last version \<noteq> CHR ''/''" by metis
  then have l: "last ?d \<noteq> CHR ''/''" using v(1) by (simp add: path_join_def)
  have "?d \<noteq> ''.''" "?d \<noteq> []" by (simp_all add: path_join_def outputDist_def)
  with n l assms(2) show ?thesis unfolding d by (intro posix_join_segment)
qed

lemma posix_join_sample: "posix_join outputDist ''1.2.0'' = ''dist/1.2.0''"
  by code_simp

lemma readFileSync_succeeded:
  "succeeded (readFileSync env w p) \<Longrightarrow> readFileSync env w p = Inr (file_bytes (fsys w p))"
  by (auto simp: readFileSync_def split: option.splits node.splits)

lemma zipFolder_not_exited [simp]: "\<not> exited (zipFolder env src out w)"
  by (simp add: zipFolder_def Let_def split: settled.splits)

lemma zip_folders_not_exited [simp]: "\<not> exited (zip_folders env dir folders files w)"
proof (induction folders arbitrary: files w)
  case Nil
  then show ?case by simp
next
  case (Cons folder rest)
  let ?z = "zipFolder env (path_join filesSrc (name folder)) (path_join dir (name folder @ ''.zip''))
              (say (L_zipping (name folder)) w)"
  have "\<not> exited ?z" by simp
  then show ?case using Cons.IH
    by (cases ?z) (auto simp: Let_def split: sum.splits)
qed

lemma exited_main_local:
  assumes "exited (main_local env w)"
  obtains version w1 items where
    "getVersion env w = Inr (Str version)"
    "ensure_dir env (posix_join outputDist version) (say (L_start version) w) = Inr w1"
    "readdirSync env filesSrc = Inr items"
    "filter isDirectory items = []"
    "main_local env w = Exit 1 (say L_no_folders w1)"
proof (cases "getVersion env w")
  case (Inl e)
  with assms show ?thesis by (simp add: main_local_def)
next
  case (Inr v)
  show ?thesis
  proof (cases v)
    case (NotStr shown)
    with assms Inr show ?thesis by (simp add: main_local_def)
  next
    case (Str version)
    let ?d = "posix_join outputDist version"
    show ?thesis
    proof (cases "ensure_dir env ?d (say (L_start version) w)")
      case (Inl e)
      with assms Inr Str show ?thesis by (simp add: main_local_def)
    next
      case e: (Inr w1)
      show ?thesis
      proof (cases "readdirSync env filesSrc")
        case (Inl err)
        with assms Inr Str e show ?thesis by (simp add: main_local_def)
      next
        case r: (Inr items)
        show ?thesis
        proof (cases "filter isDirectory items = []")
          case True
          have "main_local env w = Exit 1 (say L_no_folders w1)"
            using Inr Str e by (simp add: main_local_no_folders [OF r True])
          with Inr Str e r True that show ?thesis by blast
        next
          case False
          let ?Z = "zip_folders env ?d (filter isDirectory items) []
                      (log_found (filter isDirectory items) w1)"
          have gv: "getVersion env w = Inr (Str version)" using Inr Str by simp
          have "\<not> exited ?Z" by simp
          then have "\<not> exited (main_local env w)"
            unfolding main_local_zip [OF gv e r False]
            by (cases ?Z) (auto split: sum.splits)
          with assms show ?thesis by simp
        qed
      qed
    qed
  qed
qed

section \<open>The claims\<close>

text \<open>
  Claim C1. When the local part of \<open>main\<close> succeeds, the file \<open>info.json\<close> holds the
  serialised manifest, the manifest has one entry per folder, in enumeration order, and
  for every entry the zip file at its url exists at that moment, the \<open>sha512\<close> field is
  the base64 SHA-512 digest of the bytes of that file and the \<open>size\<close> field is their
  number. The publisher that runs afterwards leaves the disk as it is. The names that
  \<open>readdirSync\<close> returns are those of one directory, hence distinct.
\<close>
theorem manifest_entries_match_disk:
  assumes "value_of (main_local env w) = Some (version, files, outputDir)"
    and "readdirSync env filesSrc = Inr items"
    and "distinct (map name items)"
  shows "fsys (world_of (main_local env w)) (path_join outputDir ''info.json'')
           = Some (File (JSON_stringify env
               \<lparr>info_version = version, info_files = files, info_releaseDate = now_iso env\<rparr>))
       \<and> map url files = map (\<lambda>d. name d @ ''.zip'') (filter isDirectory items)
       \<and> (\<forall>f \<in> set files. \<exists>b.
             fsys (world_of (main_local env w)) (path_join outputDir (url f)) = Some (File b)
             \<and> sha512 f = sha512_base64 env b \<and> size_f f = length b)
       \<and> fsys (snd (main env w)) = fsys (world_of (main_local env w))"
proof -
  from assms(1) obtain items' w1 w2 w3 where
    rd: "readdirSync env filesSrc = Inr items'"
    and z: "zip_folders env outputDir (filter isDirectory items') []
              (log_found (filter isDirectory items') w1) = Done files w2"
    and wr: "writeFileSync env (path_join outputDir ''info.json'')
               (generateInfoJson env version files) w2 = Inr w3"
    and m: "main_local env w = Done (version, files, outputDir) (log_summary outputDir files w3)"
    by (rule main_local_Done)
  from rd assms(2) have [simp]: "items' = items" by simp
  have fs3: "fsys w3 = (fsys w2)(path_join outputDir ''info.json'' \<mapsto>
                File (generateInfoJson env version files))"
    using wr by (rule writeFileSync_fsys)
  have urls: "map url files = map (\<lambda>d. name d @ ''.zip'') (filter isDirectory items)"
    using zip_folders_urls [OF z] by simp
  have dist: "distinct (map name (filter isDirectory items))"
    using assms(3) by (simp add: distinct_map_filter)
  have d2: "\<forall>f \<in> set files. describes env w2 outputDir f"
    using zip_folders_describes [OF z] dist by simp
  have d3: "\<forall>f \<in> set files. describes env (log_summary outputDir files w3) outputDir f"
  proof
    fix f assume f: "f \<in> set files"
    then have "url f \<in> set (map url files)" by simp
    then have "url f \<noteq> ''info.json''" unfolding urls by auto
    then have "fsys (log_summary outputDir files w3) (path_join outputDir (url f))
                 = fsys w2 (path_join outputDir (url f))"
      by (simp add: fs3)
    from describes_cong [OF this] d2 f show "describes env (log_summary outputDir files w3) outputDir f"
      by simp
  qed
  have pub: "fsys (snd (main env w)) = fsys (log_summary outputDir files w3)"
    using main_after_local [OF assms(1)] createGitHubRelease_shape
    by (simp add: m)
  show ?thesis
    using urls d3 pub
    by (simp add: m fs3 generateInfoJson_def describes_iff)
qed

theorem manifest_entries_match_disk_witness:
  "value_of (main_local sample_env sample_world)
     = Some (''1.2.0'',
             [\<lparr>url = ''core.zip'', sha512 = ''sha512:PK:src/files/core'', size_f = 17\<rparr>,
              \<lparr>url = ''plugin-a.zip'', sha512 = ''sha512:PK:src/files/plugin-a'', size_f = 21\<rparr>],
             ''dist/1.2.0'')
   \<and> (\<exists>b. fsys (world_of (main_local sample_env sample_world)) ''dist/1.2.0/core.zip'' = Some (File b)
          \<and> ''sha512:PK:src/files/core'' = sha512_base64 sample_env b \<and> 17 = length b)
   \<and> (\<exists>b. fsys (world_of (main_local sample_env sample_world)) ''dist/1.2.0/plugin-a.zip'' = Some (File b)
          \<and> ''sha512:PK:src/files/plugin-a'' = sha512_base64 sample_env b \<and> 21 = length b)"
proof -
  have h1: "value_of (main_local sample_env sample_world)
     = Some (''1.2.0'',
             [\<lparr>url = ''core.zip'', sha512 = ''sha512:PK:src/files/core'', size_f = 17\<rparr>,
              \<lparr>url = ''plugin-a.zip'', sha512 = ''sha512:PK:src/files/plugin-a'', size_f = 21\<rparr>],
             ''dist/1.2.0'')"
    by code_simp
  have h2: "readdirSync sample_env filesSrc
              = Inr [\<lparr>name = ''core'', isDirectory = True\<rparr>,
                     \<lparr>name = ''README.md'', isDirectory = False\<rparr>,
                     \<lparr>name = ''plugin-a'', isDirectory = True\<rparr>]"
    by (simp add: sample_env_def filesSrc_def)
  have h3: "distinct (map name [\<lparr>name = ''core'', isDirectory = True\<rparr>,
                     \<lparr>name = ''README.md'', isDirectory = False\<rparr>,
                     \<lparr>name = ''plugin-a'', isDirectory = True\<rparr>])"
    by simp
  from manifest_entries_match_disk [OF h1 h2 h3] show ?thesis
    using h1 by (simp add: path_join_def)
qed

text \<open>
  Claim C2, as stated, fails: with the token unset and a source root without folders the
  run ends with exit status 1.
\<close>

theorem no_token_counterexample:
  "GH_TOKEN empty_root_env = None \<and> fst (main empty_root_env sample_world) = Exited 1"
  by code_simp

text \<open>
  Claim C2, amended. With the token unset no request is ever sent, whatever else happens;
  and when the local part of \<open>main\<close> succeeds, the run ends with exit status 0, the
  manifest is on disk, it has one entry per folder, and the zip file of every entry is
  on disk.
\<close>

theorem no_token_local_only:
  assumes "GH_TOKEN env = None"
  shows "calls (snd (main env w)) = calls w
       \<and> (\<forall>version files dir. value_of (main_local env w) = Some (version, files, dir) \<longrightarrow>
            fst (main env w) = Exited 0
          \<and> fsys (snd (main env w)) (path_join dir ''info.json'')
              = Some (File (generateInfoJson env version files))
          \<and> (\<exists>items. readdirSync env filesSrc = Inr items
                \<and> map url files = map (\<lambda>d. name d @ ''.zip'') (filter isDirectory items))
          \<and> (\<forall>f \<in> set files. is_file (fsys (snd (main env w)) (path_join dir (url f)))))"
proof (intro conjI allI impI)
  show "calls (snd (main env w)) = calls w"
  proof (cases "main_local env w")
    case (Done x w1)
    obtain version files dir where x: "x = (version, files, dir)" by (cases x)
    have "calls w1 = calls w" using main_local_calls [of env w] Done by simp
    then show ?thesis
      using assms by (simp add: main_def main_try_def Done x createGitHubRelease_no_token)
  qed (use main_local_calls [of env w] in \<open>simp_all add: main_def main_try_def\<close>)
next
  fix version files dir
  assume v: "value_of (main_local env w) = Some (version, files, dir)"
  from v obtain items w1 w2 w3 where
    rd: "readdirSync env filesSrc = Inr items"
    and z: "zip_folders env dir (filter isDirectory items) []
              (log_found (filter isDirectory items) w1) = Done files w2"
    and wr: "writeFileSync env (path_join dir ''info.json'')
               (generateInfoJson env version files) w2 = Inr w3"
    and m: "main_local env w = Done (version, files, dir) (log_summary dir files w3)"
    by (rule main_local_Done)
  have mn: "main env w = (Exited 0, say L_token_unset (log_summary dir files w3))"
    using main_after_local [OF v] assms by (simp add: m createGitHubRelease_no_token)
  have fs3: "fsys w3 = (fsys w2)(path_join dir ''info.json'' \<mapsto> File (generateInfoJson env version files))"
    using wr by (rule writeFileSync_fsys)
  show "fst (main env w) = Exited 0" by (simp add: mn)
  show "fsys (snd (main env w)) (path_join dir ''info.json'')
          = Some (File (generateInfoJson env version files))"
    by (simp add: mn fs3)
  show "\<exists>items. readdirSync env filesSrc = Inr items
          \<and> map url files = map (\<lambda>d. name d @ ''.zip'') (filter isDirectory items)"
    using rd zip_folders_urls [OF z] by simp
  have "\<forall>f \<in> set files. is_file (fsys w2 (path_join dir (url f)))"
    using zip_folders_files_exist [OF z] by simp
  then show "\<forall>f \<in> set files. is_file (fsys (snd (main env w)) (path_join dir (url f)))"
    by (simp add: mn fs3)
qed

theorem no_token_local_only_witness:
  "GH_TOKEN sample_env = None
   \<and> calls (snd (main sample_env sample_world)) = []
   \<and> fst (main sample_env sample_world) = Exited 0
   \<and> fsys (snd (main sample_env sample_world)) ''dist/1.2.0/info.json''
       = Some (File ''1.2.0core.zipplugin-a.zip'')
   \<and> is_file (fsys (snd (main sample_env sample_world)) ''dist/1.2.0/core.zip'')
   \<and> is_file (fsys (snd (main sample_env sample_world)) ''dist/1.2.0/plugin-a.zip'')"
proof -
  have h: "GH_TOKEN sample_env = None" by (simp add: sample_env_def)
  have v: "value_of (main_local sample_env sample_world)
     = Some (''1.2.0'',
             [\<lparr>url = ''core.zip'', sha512 = ''sha512:PK:src/files/core'', size_f = 17\<rparr>,
              \<lparr>url = ''plugin-a.zip'', sha512 = ''sha512:PK:src/files/plugin-a'', size_f = 21\<rparr>],
             ''dist/1.2.0'')"
    by code_simp
  have g: "generateInfoJson sample_env ''1.2.0''
             [\<lparr>url = ''core.zip'', sha512 = ''sha512:PK:src/files/core'', size_f = 17\<rparr>,
              \<lparr>url = ''plugin-a.zip'', sha512 = ''sha512:PK:src/files/plugin-a'', size_f = 21\<rparr>]
           = ''1.2.0core.zipplugin-a.zip''"
    by code_simp
  have c: "calls sample_world = []" by (simp add: sample_world_def)
  from no_token_local_only [OF h, of sample_world] v show ?thesis
    using h g c by (simp add: path_join_def)
qed

text \<open>
  Claim C3. The publisher always returns normally: the body of its \<open>try\<close> block either
  completes or throws, and what it throws is caught. With a token set, the thrown error's
  message is written to the console, followed by the hint exactly when the error's status
  is 401. A run whose local part succeeded ends with exit status 0.
\<close>

theorem publishing_failures_are_contained:
  "(\<exists>w'. createGitHubRelease env version files dir w = Done () w')
   \<and> done_or_threw (createGitHubRelease_try env version files dir w)
   \<and> (GH_TOKEN env \<noteq> None \<and> GH_TOKEN env \<noteq> Some [] \<longrightarrow>
        (\<forall>e. thrown_of (createGitHubRelease_try env version files dir w) = Some e \<longrightarrow>
           console (world_of (createGitHubRelease env version files dir w))
             = console (world_of (createGitHubRelease_try env version files dir w))
               @ E_github_failed (message e) # (if status e = Some 401 then [E_check_token] else [])))
   \<and> (\<forall>x. value_of (main_local env w0) = Some x \<longrightarrow> fst (main env w0) = Exited 0)"
proof (intro conjI allI impI)
  show "\<exists>w'. createGitHubRelease env version files dir w = Done () w'"
    using createGitHubRelease_shape by blast
  show "done_or_threw (createGitHubRelease_try env version files dir w)"
    using createGitHubRelease_try_shape by blast
next
  fix e
  assume t: "GH_TOKEN env \<noteq> None \<and> GH_TOKEN env \<noteq> Some []"
    and e: "thrown_of (createGitHubRelease_try env version files dir w) = Some e"
  from e obtain w1 where "createGitHubRelease_try env version files dir w = Threw e w1"
    by (cases "createGitHubRelease_try env version files dir w") simp_all
  with t show "console (world_of (createGitHubRelease env version files dir w))
             = console (world_of (createGitHubRelease_try env version files dir w))
               @ E_github_failed (message e) # (if status e = Some 401 then [E_check_token] else [])"
    by (simp add: createGitHubRelease_def)
next
  fix x
  assume "value_of (main_local env w0) = Some x"
  then show "fst (main env w0) = Exited 0"
    using main_after_local [of env w0 "fst x" "fst (snd x)" "snd (snd x)"] by simp
qed

theorem publishing_failures_are_contained_witness:
  "GH_TOKEN bad_token_env \<noteq> None \<and> GH_TOKEN bad_token_env \<noteq> Some []
   \<and> thrown_of (createGitHubRelease_try bad_token_env ''1.2.0'' [] ''dist/1.2.0'' sample_world)
       = Some \<lparr>message = ''Bad credentials'', status = Some 401\<rparr>
   \<and> console (world_of (createGitHubRelease bad_token_env ''1.2.0'' [] ''dist/1.2.0'' sample_world))
       = [L_repo ''o'' ''r'', E_github_failed ''Bad credentials'', E_check_token]
   \<and> value_of (main_local bad_token_env sample_world) \<noteq> None
   \<and> fst (main bad_token_env sample_world) = Exited 0"
proof -
  have t: "GH_TOKEN bad_token_env \<noteq> None \<and> GH_TOKEN bad_token_env \<noteq> Some []"
    by (simp add: bad_token_env_def)
  have e: "thrown_of (createGitHubRelease_try bad_token_env ''1.2.0'' [] ''dist/1.2.0'' sample_world)
       = Some \<lparr>message = ''Bad credentials'', status = Some 401\<rparr>"
    by code_simp
  have c: "console (world_of (createGitHubRelease_try bad_token_env ''1.2.0'' [] ''dist/1.2.0'' sample_world))
       = [L_repo ''o'' ''r'']"
    by code_simp
  have v: "value_of (main_local bad_token_env sample_world) \<noteq> None"
    by code_simp
  from publishing_failures_are_contained
         [of bad_token_env "''1.2.0''" "[]" "''dist/1.2.0''" sample_world sample_world]
  show ?thesis using t e c v by auto
qed



text \<open>
  Claim C5. When the source root holds no immediate subdirectory, the run ends with exit
  status 1; no archiver run is started; the only change on disk is the creation of
  directories, so no file is written anywhere and nothing appears inside the output
  directory.
\<close>

theorem no_folders_is_fatal:
  assumes "readdirSync env filesSrc = Inr items" and "filter isDirectory items = []"
  shows "fst (main env w) = Exited 1
       \<and> zips (snd (main env w)) = zips w
       \<and> (\<forall>p. fsys (snd (main env w)) p \<noteq> fsys w p \<longrightarrow>
              fsys w p = None \<and> fsys (snd (main env w)) p = Some Dir)
       \<and> (\<forall>version x. getVersion env w = Inr (Str version) \<longrightarrow>
              fsys (snd (main env w)) (path_join (posix_join outputDist version) x)
                = fsys w (path_join (posix_join outputDist version) x))"
proof (intro conjI allI impI)
  show "fst (main env w) = Exited 1" using main_no_folders_exit [OF assms] .
  show "zips (snd (main env w)) = zips w" using main_no_folders_world [OF assms] by blast
next
  fix p assume "fsys (snd (main env w)) p \<noteq> fsys w p"
  then show "fsys w p = None" "fsys (snd (main env w)) p = Some Dir"
    using main_no_folders_world [OF assms, of w] by blast+
next
  fix version x
  assume v: "getVersion env w = Inr (Str version)"
  show "fsys (snd (main env w)) (path_join (posix_join outputDist version) x)
          = fsys w (path_join (posix_join outputDist version) x)"
  proof (rule ccontr)
    assume "\<not> ?thesis"
    with main_no_folders_world [OF assms, of w] v
    have "path_join (posix_join outputDist version) x
            \<in> set (path_prefixes (posix_join outputDist version))"
      by fastforce
    then show False by simp
  qed
qed

theorem no_folders_is_fatal_witness:
  "readdirSync empty_root_env filesSrc = Inr [\<lparr>name = ''README.md'', isDirectory = False\<rparr>]
   \<and> filter isDirectory [\<lparr>name = ''README.md'', isDirectory = False\<rparr>] = []
   \<and> getVersion empty_root_env sample_world = Inr (Str ''1.2.0'')
   \<and> fst (main empty_root_env sample_world) = Exited 1
   \<and> zips (snd (main empty_root_env sample_world)) = []
   \<and> fsys (snd (main empty_root_env sample_world)) (path_join (posix_join outputDist ''1.2.0'') ''info.json'')
       = None"
proof -
  have h1: "readdirSync empty_root_env filesSrc = Inr [\<lparr>name = ''README.md'', isDirectory = False\<rparr>]"
    by (simp add: empty_root_env_def)
  have h2: "filter isDirectory [\<lparr>name = ''README.md'', isDirectory = False\<rparr>] = []" by simp
  have v: "getVersion empty_root_env sample_world = Inr (Str ''1.2.0'')" by code_simp
  have z: "zips sample_world = []" by (simp add: sample_world_def)
  have f: "fsys sample_world (path_join (posix_join outputDist ''1.2.0'') ''info.json'') = None"
    by code_simp
  from no_folders_is_fatal [OF h1 h2, of sample_world] show ?thesis
    using h1 h2 v z f by simp
qed

text \<open>
  Claim C6, as stated, fails: an error of the output stream before it closes is a
  stream-level error during archiving, yet it does not reject the operation. The promise
  stays unsettled, the \<open>catch\<close> block of \<open>main\<close> does not run (the console ends with the
  line that announces the folder), and the process ends on the unhandled event.
\<close>

theorem output_error_counterexample:
  "error_before_close
     (events (archiver failing_output_env (fsys sample_world) ''src/files/core'' ''dist/1.2.0/core.zip''))
   \<and> thrown_of (zipFolder failing_output_env ''src/files/core'' ''dist/1.2.0/core.zip'' sample_world)
       = None
   \<and> fst (main failing_output_env sample_world) = Exited 1
   \<and> console (snd (main failing_output_env sample_world))
       = [L_start ''1.2.0'', L_found 2, L_folder ''core'', L_folder ''plugin-a'', L_zipping ''core'']"
  by code_simp

text \<open>
  Claim C6, amended. \<open>zipFolder\<close> completes only when the output stream has emitted
  \<open>close\<close> and no error event came before it. When an error event comes first, the
  operation does not complete: an error of the archive rejects the promise with that
  error, and an error of the output stream, which has no listener, is not a rejection
  but ends the process. In either case the whole run ends with exit status 1, the
  publisher is not reached and the manifest is not written.
\<close>

theorem archiving_completes_on_close_and_errors_abort:
  "(\<forall>u w'. zipFolder env src out w = Done u w' \<longrightarrow>
       OutputClose \<in> set (events (archiver env (fsys w) src out))
     \<and> \<not> error_before_close (events (archiver env (fsys w) src out)))
   \<and> (error_before_close (events (archiver env (fsys w) src out)) \<longrightarrow>
        (\<exists>err. (find is_error_event (events (archiver env (fsys w) src out)) = Some (ArchiveError err)
                 \<and> (\<exists>w'. zipFolder env src out w = Threw err w'))
              \<or> (find is_error_event (events (archiver env (fsys w) src out)) = Some (OutputError err)
                 \<and> (\<exists>w'. zipFolder env src out w = Uncaught err w'))))
   \<and> ((\<forall>x \<in> set (zips w0). \<not> bad_run x) \<and> (\<exists>x \<in> set (zips (snd (main env w0))). bad_run x) \<longrightarrow>
         fst (main env w0) = Exited 1
       \<and> calls (snd (main env w0)) = calls w0
       \<and> (\<forall>version. getVersion env w0 = Inr (Str version) \<longrightarrow>
             fsys (snd (main env w0)) (path_join (posix_join outputDist version) ''info.json'')
               = fsys w0 (path_join (posix_join outputDist version) ''info.json'')))"
proof (intro conjI allI impI)
  fix u w'
  assume "zipFolder env src out w = Done u w'"
  from zipFolder_Done [OF this]
  show "OutputClose \<in> set (events (archiver env (fsys w) src out))"
    and "\<not> error_before_close (events (archiver env (fsys w) src out))"
    by (simp_all add: promise_resolved_iff)
next
  let ?es = "events (archiver env (fsys w) src out)"
  assume eb: "error_before_close ?es"
  note zc = zipFolder_cases [where env = env and w = w and src = src and out = out]
  from promise_first_error [OF eb]
  show "\<exists>err. (find is_error_event ?es = Some (ArchiveError err)
                 \<and> (\<exists>w'. zipFolder env src out w = Threw err w'))
              \<or> (find is_error_event ?es = Some (OutputError err)
                 \<and> (\<exists>w'. zipFolder env src out w = Uncaught err w'))"
    using zc by (auto split: option.splits stream_event.splits)
next
  assume a: "(\<forall>x \<in> set (zips w0). \<not> bad_run x) \<and> (\<exists>x \<in> set (zips (snd (main env w0))). bad_run x)"
  then have c: "\<forall>x \<in> set (zips w0). \<not> bad_run x"
    and b: "\<exists>x \<in> set (zips (snd (main env w0))). bad_run x" by blast+
  note r = main_error_aborts [OF c b]
  show "fst (main env w0) = Exited 1" using r by blast
  show "calls (snd (main env w0)) = calls w0" using r by blast
  fix version assume "getVersion env w0 = Inr (Str version)"
  then show "fsys (snd (main env w0)) (path_join (posix_join outputDist version) ''info.json'')
               = fsys w0 (path_join (posix_join outputDist version) ''info.json'')"
    using r by blast
qed

theorem archiving_completes_on_close_and_errors_abort_witness:
  "value_of (zipFolder sample_env ''src/files/core'' ''dist/1.2.0/core.zip'' sample_world) = Some ()
   \<and> OutputClose \<in> set (events (archiver sample_env (fsys sample_world) ''src/files/core'' ''dist/1.2.0/core.zip''))
   \<and> error_before_close
       (events (archiver failing_archiver_env (fsys sample_world) ''src/files/core'' ''dist/1.2.0/core.zip''))
   \<and> thrown_of (zipFolder failing_archiver_env ''src/files/core'' ''dist/1.2.0/core.zip'' sample_world)
       = Some \<lparr>message = ''EACCES'', status = None\<rparr>
   \<and> zips sample_world = []
   \<and> (\<exists>x \<in> set (zips (snd (main failing_archiver_env sample_world))). bad_run x)
   \<and> fst (main failing_archiver_env sample_world) = Exited 1
   \<and> fsys (snd (main failing_archiver_env sample_world)) ''dist/1.2.0/info.json'' = None"
proof -
  have d: "zipFolder sample_env ''src/files/core'' ''dist/1.2.0/core.zip'' sample_world
            = Done () (world_of (zipFolder sample_env ''src/files/core'' ''dist/1.2.0/core.zip'' sample_world))"
    by (rule value_of_Some) (simp add: zipFolder_def sample_env_def)
  have v: "value_of (zipFolder sample_env ''src/files/core'' ''dist/1.2.0/core.zip'' sample_world) = Some ()"
    by (subst d) simp
  have eb: "error_before_close
       (events (archiver failing_archiver_env (fsys sample_world) ''src/files/core'' ''dist/1.2.0/core.zip''))"
    by (simp add: failing_archiver_env_def error_before_close_def)
  have fe: "find is_error_event
       (events (archiver failing_archiver_env (fsys sample_world) ''src/files/core'' ''dist/1.2.0/core.zip''))
       = Some (ArchiveError \<lparr>message = ''EACCES'', status = None\<rparr>)"
    by (simp add: failing_archiver_env_def)
  have z0: "zips sample_world = []" by (simp add: sample_world_def)
  then have c: "\<forall>x \<in> set (zips sample_world). \<not> bad_run x" by simp
  have b: "\<exists>x \<in> set (zips (snd (main failing_archiver_env sample_world))). bad_run x"
    by code_simp
  have gv: "getVersion failing_archiver_env sample_world = Inr (Str ''1.2.0'')" by code_simp
  have n: "fsys sample_world ''dist/1.2.0/info.json'' = None" by (simp add: sample_world_def)
  have pj: "path_join (posix_join outputDist ''1.2.0'') ''info.json'' = ''dist/1.2.0/info.json''"
    by code_simp
  note t1 = archiving_completes_on_close_and_errors_abort
              [of sample_env "''src/files/core''" "''dist/1.2.0/core.zip''" sample_world sample_world]
  note t2 = archiving_completes_on_close_and_errors_abort
              [of failing_archiver_env "''src/files/core''" "''dist/1.2.0/core.zip''" sample_world sample_world]
  have p1: "OutputClose \<in> set (events (archiver sample_env (fsys sample_world) ''src/files/core'' ''dist/1.2.0/core.zip''))"
    using t1 d by blast
  have p2: "thrown_of (zipFolder failing_archiver_env ''src/files/core'' ''dist/1.2.0/core.zip'' sample_world)
       = Some \<lparr>message = ''EACCES'', status = None\<rparr>"
    using t2 eb fe by auto
  from t2 c b gv have "fst (main failing_archiver_env sample_world) = Exited 1
       \<and> fsys (snd (main failing_archiver_env sample_world))
            (path_join (posix_join outputDist ''1.2.0'') ''info.json'')
          = fsys sample_world (path_join (posix_join outputDist ''1.2.0'') ''info.json'')"
    by blast
  then have p3: "fst (main failing_archiver_env sample_world) = Exited 1
       \<and> fsys (snd (main failing_archiver_env sample_world)) ''dist/1.2.0/info.json'' = None"
    by (simp add: pj n)
  show ?thesis using v p1 eb p2 z0 b p3 by blast
qed

text \<open>
  Claim C7, as stated, fails in three ways. An entry whose file is missing is skipped
  without any line on the console. When the remote refuses the upload of the first
  entry, the loop ends there and the second entry, whose file exists, is never
  uploaded. When the file of the first entry cannot be read, nothing is uploaded at all.
\<close>

theorem upload_loop_counterexample:
  "\<not> existsSync sample_world ''dist/1.2.0/core.zip''
   \<and> value_of (upload_files new_release_env ''o'' ''r'' sample_release ''dist/1.2.0''
        [\<lparr>url = ''core.zip'', sha512 = ''sha512:PK:src/files/core'', size_f = 17\<rparr>] sample_world) = Some ()
   \<and> console (world_of (upload_files new_release_env ''o'' ''r'' sample_release ''dist/1.2.0''
        [\<lparr>url = ''core.zip'', sha512 = ''sha512:PK:src/files/core'', size_f = 17\<rparr>] sample_world)) = []
   \<and> fsys packaged_world ''dist/1.2.0/plugin-a.zip'' = Some (File ''PK:src/files/plugin-a'')
   \<and> calls (world_of (upload_files bad_token_env ''o'' ''r'' sample_release ''dist/1.2.0''
        sample_files packaged_world))
       = [UploadReleaseAsset ''o'' ''r'' 7 ''core.zip'' ''PK:src/files/core'']
   \<and> thrown_of (upload_files bad_token_env ''o'' ''r'' sample_release ''dist/1.2.0''
        sample_files packaged_world)
       = Some \<lparr>message = ''Bad credentials'', status = Some 401\<rparr>
   \<and> calls (world_of (upload_files unreadable_env ''o'' ''r'' sample_release ''dist/1.2.0''
        sample_files packaged_world)) = []
   \<and> thrown_of (upload_files unreadable_env ''o'' ''r'' sample_release ''dist/1.2.0''
        sample_files packaged_world) = Some EACCES"
  by code_simp

text \<open>
  Claim C7, amended. Provided every file read of the loop succeeds and the remote accepts
  each request the loop sends, in the order it sends them, the loop completes; it
  uploads, in order, exactly the entries whose file exists, each under its url as the
  asset name, with the bytes of the file, to the release; entries whose file is missing
  add neither a request nor a console line.
\<close>

theorem existing_artifacts_uploaded_missing_skipped_silently:
  assumes "\<forall>f \<in> set files. existsSync w (path_join dir (url f)) \<longrightarrow>
             succeeded (readFileSync env w (path_join dir (url f)))"
    and "uploads_accepted env (calls w) (asset_uploads owner repo rel dir w files)"
  shows "upload_files env owner repo rel dir files w =
     Done ()
       (w\<lparr>console := console w
            @ concat (map (\<lambda>f. [L_uploading (url f), L_uploaded (url f)])
                (filter (\<lambda>f. existsSync w (path_join dir (url f))) files)),
          calls := calls w @ asset_uploads owner repo rel dir w files\<rparr>)"
  using assms
proof (induction files arbitrary: w)
  case Nil
  then show ?case by (simp add: asset_uploads_def)
next
  case (Cons f rest)
  let ?p = "path_join dir (url f)"
  show ?case
  proof (cases "existsSync w ?p")
    case False
    have "uploads_accepted env (calls w) (asset_uploads owner repo rel dir w rest)"
      using Cons.prems(2) False by (simp add: asset_uploads_def)
    with Cons.IH [of w] Cons.prems(1) False show ?thesis
      by (simp add: asset_uploads_def)
  next
    case True
    let ?b = "file_bytes (fsys w ?p)"
    let ?c = "UploadReleaseAsset owner repo (release_id rel) (url f) ?b"
    have rd: "readFileSync env w ?p = Inr ?b"
      using Cons.prems(1) True by (simp add: readFileSync_succeeded)
    have au: "asset_uploads owner repo rel dir w (f # rest)
                = ?c # asset_uploads owner repo rel dir w rest"
      using True by (simp add: asset_uploads_def)
    from Cons.prems(2) have acc: "succeeded (octokit env (calls w) ?c)"
      and accr: "uploads_accepted env (calls w @ [?c]) (asset_uploads owner repo rel dir w rest)"
      unfolding au by simp_all
    from acc obtain r where r: "octokit env (calls w) ?c = Inr r"
      by (cases "octokit env (calls w) ?c") simp_all
    let ?w1 = "say (L_uploaded (url f)) (snd (request env ?c (say (L_uploading (url f)) w)))"
    have fs1: "fsys ?w1 = fsys w" by simp
    have ex1: "\<And>q. existsSync ?w1 q = existsSync w q" by (simp add: existsSync_def)
    have rd1: "\<And>q. readFileSync env ?w1 q = readFileSync env w q"
      by (simp add: readFileSync_def cong: option.case_cong)
    have au1: "asset_uploads owner repo rel dir ?w1 rest = asset_uploads owner repo rel dir w rest"
      by (simp add: asset_uploads_def existsSync_def)
    have c1: "calls ?w1 = calls w @ [?c]" by simp
    have p1: "\<forall>g \<in> set rest. existsSync ?w1 (path_join dir (url g)) \<longrightarrow>
                succeeded (readFileSync env ?w1 (path_join dir (url g)))"
      using Cons.prems(1) by (simp only: ex1 rd1) simp
    have p2: "uploads_accepted env (calls ?w1) (asset_uploads owner repo rel dir ?w1 rest)"
      using accr by (simp only: au1 c1)
    from Cons.IH [OF p1 p2]
    have ih: "upload_files env owner repo rel dir rest ?w1 =
       Done ()
        (?w1\<lparr>console := console ?w1
            @ concat (map (\<lambda>f. [L_uploading (url f), L_uploaded (url f)])
                (filter (\<lambda>f. existsSync w (path_join dir (url f))) rest)),
          calls := calls ?w1 @ asset_uploads owner repo rel dir w rest\<rparr>)"
      by (simp only: ex1 au1)
    have step: "upload_files env owner repo rel dir (f # rest) w
                  = upload_files env owner repo rel dir rest ?w1"
      using True rd r by (simp add: request_def)
    show ?thesis
      unfolding step ih au using True
      by (simp add: request_def say_def)
  qed
qed

theorem existing_artifacts_uploaded_missing_skipped_silently_witness:
  "list_all (\<lambda>f. \<not> existsSync packaged_world (path_join ''dist/1.2.0'' (url f))
               \<or> succeeded (readFileSync no_duplicates_env packaged_world (path_join ''dist/1.2.0'' (url f))))
     (sample_files @ [\<lparr>url = ''missing.zip'', sha512 = [], size_f = 0\<rparr>])
   \<and> uploads_accepted no_duplicates_env (calls packaged_world)
        (asset_uploads ''o'' ''r'' sample_release ''dist/1.2.0'' packaged_world
           (sample_files @ [\<lparr>url = ''missing.zip'', sha512 = [], size_f = 0\<rparr>]))
   \<and> octokit no_duplicates_env [UploadReleaseAsset ''o'' ''r'' 7 ''core.zip'' ''PK:src/files/core'']
        (UploadReleaseAsset ''o'' ''r'' 7 ''core.zip'' ''PK:src/files/core'')
       = Inl \<lparr>message = ''already_exists'', status = Some 422\<rparr>
   \<and> \<not> existsSync packaged_world ''dist/1.2.0/missing.zip''
   \<and> value_of (upload_files no_duplicates_env ''o'' ''r'' sample_release ''dist/1.2.0''
         (sample_files @ [\<lparr>url = ''missing.zip'', sha512 = [], size_f = 0\<rparr>]) packaged_world) = Some ()
   \<and> calls (world_of (upload_files no_duplicates_env ''o'' ''r'' sample_release ''dist/1.2.0''
         (sample_files @ [\<lparr>url = ''missing.zip'', sha512 = [], size_f = 0\<rparr>]) packaged_world))
       = [UploadReleaseAsset ''o'' ''r'' 7 ''core.zip'' ''PK:src/files/core'',
          UploadReleaseAsset ''o'' ''r'' 7 ''plugin-a.zip'' ''PK:src/files/plugin-a'']
   \<and> console (world_of (upload_files no_duplicates_env ''o'' ''r'' sample_release ''dist/1.2.0''
         (sample_files @ [\<lparr>url = ''missing.zip'', sha512 = [], size_f = 0\<rparr>]) packaged_world))
       = console packaged_world
         @ [L_uploading ''core.zip'', L_uploaded ''core.zip'',
            L_uploading ''plugin-a.zip'', L_uploaded ''plugin-a.zip'']"
proof -
  let ?fl = "sample_files @ [\<lparr>url = ''missing.zip'', sha512 = [], size_f = 0\<rparr>]"
  have l1: "list_all (\<lambda>f. \<not> existsSync packaged_world (path_join ''dist/1.2.0'' (url f))
               \<or> succeeded (readFileSync no_duplicates_env packaged_world (path_join ''dist/1.2.0'' (url f))))
     ?fl"
    by code_simp
  then have h1: "\<forall>f \<in> set ?fl. existsSync packaged_world (path_join ''dist/1.2.0'' (url f)) \<longrightarrow>
             succeeded (readFileSync no_duplicates_env packaged_world (path_join ''dist/1.2.0'' (url f)))"
    by (auto simp only: list_all_iff)
  have h2: "uploads_accepted no_duplicates_env (calls packaged_world)
        (asset_uploads ''o'' ''r'' sample_release ''dist/1.2.0'' packaged_world ?fl)"
    by code_simp
  have d: "octokit no_duplicates_env [UploadReleaseAsset ''o'' ''r'' 7 ''core.zip'' ''PK:src/files/core'']
        (UploadReleaseAsset ''o'' ''r'' 7 ''core.zip'' ''PK:src/files/core'')
       = Inl \<lparr>message = ''already_exists'', status = Some 422\<rparr>"
    by (simp add: no_duplicates_env_def)
  have m: "\<not> existsSync packaged_world ''dist/1.2.0/missing.zip''" by code_simp
  have e: "filter (\<lambda>f. existsSync packaged_world (path_join ''dist/1.2.0'' (url f))) ?fl = sample_files"
    by code_simp
  have a: "asset_uploads ''o'' ''r'' sample_release ''dist/1.2.0'' packaged_world ?fl
           = [UploadReleaseAsset ''o'' ''r'' 7 ''core.zip'' ''PK:src/files/core'',
              UploadReleaseAsset ''o'' ''r'' 7 ''plugin-a.zip'' ''PK:src/files/plugin-a'']"
    by code_simp
  have c0: "calls packaged_world = []"
    by (simp add: packaged_world_def sample_world_def)
  have u: "concat (map (\<lambda>f. [L_uploading (url f), L_uploaded (url f)]) sample_files)
           = [L_uploading ''core.zip'', L_uploaded ''core.zip'',
              L_uploading ''plugin-a.zip'', L_uploaded ''plugin-a.zip'']"
    by (simp add: sample_files_def)
  note r = existing_artifacts_uploaded_missing_skipped_silently [OF h1 h2, unfolded e a c0 u]
  have v: "value_of (upload_files no_duplicates_env ''o'' ''r'' sample_release ''dist/1.2.0'' ?fl
             packaged_world) = Some ()"
    by (subst r) simp
  have c: "calls (world_of (upload_files no_duplicates_env ''o'' ''r'' sample_release ''dist/1.2.0'' ?fl
             packaged_world))
       = [UploadReleaseAsset ''o'' ''r'' 7 ''core.zip'' ''PK:src/files/core'',
          UploadReleaseAsset ''o'' ''r'' 7 ''plugin-a.zip'' ''PK:src/files/plugin-a'']"
    by (subst r) simp
  have k: "console (world_of (upload_files no_duplicates_env ''o'' ''r'' sample_release ''dist/1.2.0'' ?fl
             packaged_world))
       = console packaged_world
         @ [L_uploading ''core.zip'', L_uploaded ''core.zip'',
            L_uploading ''plugin-a.zip'', L_uploaded ''plugin-a.zip'']"
    by (subst r) simp
  have h2': "uploads_accepted no_duplicates_env (calls packaged_world)
        (asset_uploads ''o'' ''r'' sample_release ''dist/1.2.0'' packaged_world ?fl)"
    by (rule h2)
  show ?thesis using l1 h2' d m v c k by blast
qed

text \<open>
  Claim C9. Entries of the source root that are not directories play no part: the run
  is the same when they are removed from the listing; every archiver run started has a
  directory entry as its source; the manifest lists exactly the directory entries; and a
  source root with plain files only ends with exit status 1 and no archiver run.
\<close>

theorem plain_files_are_ignored:
  "main (env\<lparr>readdirSync := (\<lambda>p. case readdirSync env p of
                                     Inl e \<Rightarrow> Inl e
                                   | Inr items \<Rightarrow> Inr (filter isDirectory items))\<rparr>) w
     = main env w
   \<and> (readdirSync env filesSrc = Inr items \<longrightarrow>
        (\<forall>x \<in> set (zips (snd (main env w))).
            x \<in> set (zips w) \<or> (\<exists>d \<in> set items. isDirectory d \<and> fst x = path_join filesSrc (name d)))
      \<and> (\<forall>version files dir. value_of (main_local env w) = Some (version, files, dir) \<longrightarrow>
            map url files = map (\<lambda>d. name d @ ''.zip'') (filter isDirectory items))
      \<and> ((\<forall>d \<in> set items. \<not> isDirectory d) \<longrightarrow>
            fst (main env w) = Exited 1 \<and> zips (snd (main env w)) = zips w))"
proof (intro conjI allI impI)
  show "main (env\<lparr>readdirSync := (\<lambda>p. case readdirSync env p of
                                     Inl e \<Rightarrow> Inl e
                                   | Inr items \<Rightarrow> Inr (filter isDirectory items))\<rparr>) w
     = main env w"
    by (simp add: main_def main_try_def main_local_filtered
          cong: result.case_cong prod.case_cong)
next
  assume r: "readdirSync env filesSrc = Inr items"
  show "\<forall>x \<in> set (zips (snd (main env w))).
            x \<in> set (zips w) \<or> (\<exists>d \<in> set items. isDirectory d \<and> fst x = path_join filesSrc (name d))"
  proof (cases "zips (world_of (main_local env w)) = zips w")
    case True
    then show ?thesis by (simp add: main_zips)
  next
    case False
    with main_local_zips_cases [of env w] r obtain version w1 where
      e: "ensure_dir env (posix_join outputDist version) (say (L_start version) w) = Inr w1"
      and z: "zips (world_of (main_local env w))
           = zips (world_of (zip_folders env (posix_join outputDist version)
                               (filter isDirectory items) []
                               (log_found (filter isDirectory items) w1)))"
      by auto
    have "zips (log_found (filter isDirectory items) w1) = zips w"
      using ensure_dir_calls_zips [OF e] by simp
    with zip_folders_sources [of env "posix_join outputDist version" "filter isDirectory items" "[]"
           "log_found (filter isDirectory items) w1"]
    show ?thesis by (auto simp: main_zips z)
  qed
next
  fix version files dir
  assume r: "readdirSync env filesSrc = Inr items"
    and v: "value_of (main_local env w) = Some (version, files, dir)"
  from v obtain items' w1 w2 where
    "readdirSync env filesSrc = Inr items'"
    "zip_folders env dir (filter isDirectory items') []
              (log_found (filter isDirectory items') w1) = Done files w2"
    by (rule main_local_Done)
  with r zip_folders_urls [of env dir "filter isDirectory items" "[]" _ files w2]
  show "map url files = map (\<lambda>d. name d @ ''.zip'') (filter isDirectory items)" by auto
next
  assume r: "readdirSync env filesSrc = Inr items" and n: "\<forall>d \<in> set items. \<not> isDirectory d"
  then have f: "filter isDirectory items = []" by (simp add: filter_empty_conv)
  show "fst (main env w) = Exited 1" using main_no_folders_exit [OF r f] .
  show "zips (snd (main env w)) = zips w" using main_no_folders_world [OF r f] by blast
qed

theorem plain_files_are_ignored_witness:
  "readdirSync empty_root_env filesSrc = Inr [\<lparr>name = ''README.md'', isDirectory = False\<rparr>]
   \<and> list_all (\<lambda>d. \<not> isDirectory d) [\<lparr>name = ''README.md'', isDirectory = False\<rparr>]
   \<and> fst (main empty_root_env sample_world) = Exited 1
   \<and> zips (snd (main empty_root_env sample_world)) = []
   \<and> readdirSync sample_env filesSrc
       = Inr [\<lparr>name = ''core'', isDirectory = True\<rparr>,
              \<lparr>name = ''README.md'', isDirectory = False\<rparr>,
              \<lparr>name = ''plugin-a'', isDirectory = True\<rparr>]
   \<and> value_of (main_local sample_env sample_world) = Some (''1.2.0'', sample_files, ''dist/1.2.0'')
   \<and> map url sample_files = [''core.zip'', ''plugin-a.zip'']
   \<and> ''src/files/README.md'' \<notin> fst ` set (zips (snd (main sample_env sample_world)))"
proof -
  have r1: "readdirSync empty_root_env filesSrc = Inr [\<lparr>name = ''README.md'', isDirectory = False\<rparr>]"
    by (simp add: empty_root_env_def)
  have n1: "\<forall>d \<in> set [\<lparr>name = ''README.md'', isDirectory = False\<rparr>]. \<not> isDirectory d" by simp
  have z0: "zips sample_world = []" by (simp add: sample_world_def)
  have r2: "readdirSync sample_env filesSrc
       = Inr [\<lparr>name = ''core'', isDirectory = True\<rparr>,
              \<lparr>name = ''README.md'', isDirectory = False\<rparr>,
              \<lparr>name = ''plugin-a'', isDirectory = True\<rparr>]"
    by (simp add: sample_env_def filesSrc_def)
  have v2: "value_of (main_local sample_env sample_world) = Some (''1.2.0'', sample_files, ''dist/1.2.0'')"
    by code_simp
  note t1 = plain_files_are_ignored
              [of empty_root_env sample_world "[\<lparr>name = ''README.md'', isDirectory = False\<rparr>]"]
  note t2 = plain_files_are_ignored
              [of sample_env sample_world "[\<lparr>name = ''core'', isDirectory = True\<rparr>,
              \<lparr>name = ''README.md'', isDirectory = False\<rparr>,
              \<lparr>name = ''plugin-a'', isDirectory = True\<rparr>]"]
  have p1: "fst (main empty_root_env sample_world) = Exited 1
            \<and> zips (snd (main empty_root_env sample_world)) = []"
    using t1 r1 n1 z0 by simp
  have p2: "map url sample_files = [''core.zip'', ''plugin-a.zip'']"
    using t2 r2 v2 by simp
  have p3: "''src/files/README.md'' \<notin> fst ` set (zips (snd (main sample_env sample_world)))"
    using t2 r2 z0 by (auto simp: path_join_def filesSrc_def)
  have l1: "list_all (\<lambda>d. \<not> isDirectory d) [\<lparr>name = ''README.md'', isDirectory = False\<rparr>]"
    by simp
  show ?thesis using r1 l1 p1 r2 v2 p2 p3 by blast
qed

text \<open>
  Claim C10, as stated, fails: when a plain file is where the output directory should be,
  the script finds that something exists there, creates nothing, and still aborts with
  the zero-subdirectory error; no output directory exists afterwards. The same happens
  when the version leads to an existing file, as \<open>../package.json\<close> does.
\<close>

theorem output_dir_counterexample:
  "exited (main_local empty_root_env blocked_world)
   \<and> fst (main empty_root_env blocked_world) = Exited 1
   \<and> console (snd (main empty_root_env blocked_world)) = [L_start ''1.2.0'', L_no_folders]
   \<and> posix_join outputDist ''1.2.0'' = ''dist/1.2.0''
   \<and> fsys (snd (main empty_root_env blocked_world)) ''dist/1.2.0'' = Some (File ''x'')
   \<and> exited (main_local odd_version_env sample_world)
   \<and> posix_join outputDist ''../package.json'' = ''package.json''
   \<and> fsys (snd (main odd_version_env sample_world)) ''package.json''
       = Some (File ''{ version: 1.2.0 }'')"
  by code_simp

text \<open>
  Claim C10, amended. The output path is looked at, and created when nothing is there,
  before the source root is read: after a run that aborts with the zero-subdirectory
  error the disk is as lines 175 to 177 left it; the output path exists; it is a
  directory unless it was a plain file before the run, in which case it is left as it
  was; and nothing is added inside it.
\<close>

theorem output_path_after_abort:
  assumes "exited (main_local env w)"
  shows "\<exists>version.
       getVersion env w = Inr (Str version)
     \<and> fst (main env w) = Exited 1
     \<and> (\<exists>w1. ensure_dir env (posix_join outputDist version) (say (L_start version) w) = Inr w1
            \<and> fsys (snd (main env w)) = fsys w1)
     \<and> existsSync (snd (main env w)) (posix_join outputDist version)
     \<and> (is_file (fsys w (posix_join outputDist version)) \<longrightarrow>
          fsys (snd (main env w)) (posix_join outputDist version)
            = fsys w (posix_join outputDist version))
     \<and> (\<not> is_file (fsys w (posix_join outputDist version)) \<longrightarrow>
          fsys (snd (main env w)) (posix_join outputDist version) = Some Dir)
     \<and> (\<forall>x. fsys (snd (main env w)) (path_join (posix_join outputDist version) x)
              = fsys w (path_join (posix_join outputDist version) x))"
proof -
  from assms obtain version w1 items where
    v: "getVersion env w = Inr (Str version)"
    and e: "ensure_dir env (posix_join outputDist version) (say (L_start version) w) = Inr w1"
    and m: "main_local env w = Exit 1 (say L_no_folders w1)"
    by (rule exited_main_local)
  let ?d = "posix_join outputDist version"
  have mn: "main env w = (Exited 1, say L_no_folders w1)"
    by (simp add: main_def main_try_def m)
  have fs1: "\<And>p. fsys w1 p = (if p \<in> set (path_prefixes ?d) \<and> fsys w ?d = None then Some Dir
                                else fsys w p)"
    using ensure_dir_fsys [OF e] by simp
  have ex: "existsSync (snd (main env w)) ?d"
    by (simp add: mn existsSync_def fs1)
  have fl: "is_file (fsys w ?d) \<longrightarrow> fsys (snd (main env w)) ?d = fsys w ?d"
    by (auto simp: mn fs1)
  have nf: "\<not> is_file (fsys w ?d) \<longrightarrow> fsys (snd (main env w)) ?d = Some Dir"
    using not_file_cases [of "fsys w ?d"] by (auto simp: mn fs1)
  have ins: "\<forall>x. fsys (snd (main env w)) (path_join ?d x) = fsys w (path_join ?d x)"
    by (simp add: mn fs1)
  have en: "\<exists>w1. ensure_dir env ?d (say (L_start version) w) = Inr w1
            \<and> fsys (snd (main env w)) = fsys w1"
    using e by (simp add: mn)
  show ?thesis using v mn en ex fl nf ins by auto
qed

theorem output_path_after_abort_witness:
  "exited (main_local empty_root_env sample_world)
   \<and> getVersion empty_root_env sample_world = Inr (Str ''1.2.0'')
   \<and> fsys sample_world ''dist/1.2.0'' = None
   \<and> fst (main empty_root_env sample_world) = Exited 1
   \<and> fsys (snd (main empty_root_env sample_world)) ''dist/1.2.0'' = Some Dir
   \<and> fsys (snd (main empty_root_env sample_world)) ''dist/1.2.0/info.json'' = None"
proof -
  have h: "exited (main_local empty_root_env sample_world)" by code_simp
  have gv: "getVersion empty_root_env sample_world = Inr (Str ''1.2.0'')" by code_simp
  have n: "fsys sample_world ''dist/1.2.0'' = None" by (simp add: sample_world_def)
  have n2: "fsys sample_world ''dist/1.2.0/info.json'' = None" by (simp add: sample_world_def)
  have pj: "posix_join outputDist ''1.2.0'' = ''dist/1.2.0''" by (rule posix_join_sample)
  from output_path_after_abort [OF h] obtain version where
    a: "getVersion empty_root_env sample_world = Inr (Str version)"
    and b: "fst (main empty_root_env sample_world) = Exited 1"
    and c: "\<not> is_file (fsys sample_world (posix_join outputDist version)) \<longrightarrow>
          fsys (snd (main empty_root_env sample_world)) (posix_join outputDist version) = Some Dir"
    and d: "\<forall>x. fsys (snd (main empty_root_env sample_world)) (path_join (posix_join outputDist version) x)
              = fsys sample_world (path_join (posix_join outputDist version) x)"
    by blast
  from a gv have ver: "version = ''1.2.0''" by simp
  have p1: "fsys (snd (main empty_root_env sample_world)) ''dist/1.2.0'' = Some Dir"
    using c n by (simp add: ver pj)
  have "fsys (snd (main empty_root_env sample_world)) (path_join ''dist/1.2.0'' ''info.json'')
          = fsys sample_world (path_join ''dist/1.2.0'' ''info.json'')"
    using d by (simp add: ver pj)
  then have p2: "fsys (snd (main empty_root_env sample_world)) ''dist/1.2.0/info.json'' = None"
    using n2 by (simp add: path_join_def)
  show ?thesis using h gv n b p1 p2 by blast
qed

end
